theory Spec2Isabelle
  imports Complex_Main
begin

section \<open>JavaScript values and the operators \<open>App.tsx\<close> applies to them\<close>

text \<open>
  Every value the component handles is typed \<open>any\<close>: it is what \<open>response.json()\<close>
  returned, or a piece of it. \<open>JUndefined\<close> is the value of a missing property; it never
  occurs inside a parsed body. A string is its sequence of code units, a number the value
  of the parsed double (only its being zero is ever looked at). An object is the list of
  its own properties in insertion order, each key once.
\<close>

datatype json =
    JUndefined
  | JNull
  | JBool bool
  | JNum rat
  | JStr string
  | JArr "json list"
  | JObj "(string \<times> json) list"

text \<open>What a \<open>try\<close> block of the component can catch.\<close>

datatype exn = TypeError | SyntaxError | NetworkError

definition and_then :: "exn + 'a \<Rightarrow> ('a \<Rightarrow> exn + 'b) \<Rightarrow> exn + 'b" where
  "and_then r f = (case r of Inl e \<Rightarrow> Inl e | Inr v \<Rightarrow> f v)"

fun nullish :: "json \<Rightarrow> bool" where
  "nullish JUndefined = True"
| "nullish JNull = True"
| "nullish _ = False"

text \<open>\<open>!!v\<close>: the falsy values are undefined, null, false, 0 and the empty string.\<close>

fun truthy :: "json \<Rightarrow> bool" where
  "truthy JUndefined = False"
| "truthy JNull = False"
| "truthy (JBool b) = b"
| "truthy (JNum q) = (q \<noteq> 0)"
| "truthy (JStr s) = (s \<noteq> [])"
| "truthy (JArr xs) = True"
| "truthy (JObj kvs) = True"

definition lookup :: "(string \<times> json) list \<Rightarrow> string \<Rightarrow> json" where
  "lookup kvs k = (case map_of kvs k of None \<Rightarrow> JUndefined | Some v \<Rightarrow> v)"

text \<open>
  \<open>v.k\<close> for a property name \<open>k\<close> that is not an array index, on a value that is neither
  undefined nor null.
\<close>

fun prop_of :: "json \<Rightarrow> string \<Rightarrow> json" where
  "prop_of (JObj kvs) k = lookup kvs k"
| "prop_of (JArr xs) k = (if k = ''length'' then JNum (of_nat (length xs)) else JUndefined)"
| "prop_of (JStr s) k = (if k = ''length'' then JNum (of_nat (length s)) else JUndefined)"
| "prop_of _ k = JUndefined"

text \<open>\<open>v.k\<close>: reading a property of undefined or null throws.\<close>

definition get_prop :: "json \<Rightarrow> string \<Rightarrow> exn + json" where
  "get_prop v k = (if nullish v then Inl TypeError else Inr (prop_of v k))"

text \<open>\<open>v?.k\<close>\<close>

definition opt_get :: "json \<Rightarrow> string \<Rightarrow> json" where
  "opt_get v k = (if nullish v then JUndefined else prop_of v k)"

text \<open>\<open>a || b\<close>\<close>

definition js_or :: "json \<Rightarrow> json \<Rightarrow> json" where
  "js_or a b = (if truthy a then a else b)"

text \<open>The decimal numeral of an array index, which is its property key.\<close>

fun dec :: "nat \<Rightarrow> string" where
  "dec n = (if n < 10 then [''0123456789'' ! n] else dec (n div 10) @ [''0123456789'' ! (n mod 10)])"

declare dec.simps [simp del]

text \<open>
  A value of \<open>Math.floor(Math.random() * data.results.length)\<close>. The random source and
  the double arithmetic are the environment's: the model is handed the value. It is a
  non-negative integer \<open>Index i\<close>, or some other number (\<open>NaN\<close> when the length is not a
  number), which the code only uses as a set element and as a property key and which is
  therefore identified with that key. For an array of \<open>n > 0\<close> entries the value is an
  \<open>Index i\<close> with \<open>i < n\<close>; for an empty array it is \<open>Index 0\<close>.
\<close>

datatype draw = Index nat | Other string

fun key_of :: "draw \<Rightarrow> string" where
  "key_of (Index i) = dec i"
| "key_of (Other k) = k"

text \<open>\<open>v[d]\<close>: out of range an array or a string gives undefined.\<close>

fun elem :: "json \<Rightarrow> draw \<Rightarrow> exn + json" where
  "elem JUndefined d = Inl TypeError"
| "elem JNull d = Inl TypeError"
| "elem (JArr xs) (Index i) = Inr (if i < length xs then xs ! i else JUndefined)"
| "elem (JArr xs) (Other k) = Inr JUndefined"
| "elem (JStr s) (Index i) = Inr (if i < length s then JStr [s ! i] else JUndefined)"
| "elem (JStr s) (Other k) = Inr JUndefined"
| "elem (JObj kvs) d = Inr (lookup kvs (key_of d))"
| "elem (JBool b) d = Inr JUndefined"
| "elem (JNum q) d = Inr JUndefined"

section \<open>The sampling loop of \<open>fetchPokemonList\<close>\<close>

text \<open>
  Lines 47 to 56. \<open>data\<close> is the parsed index body; the list of draws is the sequence of
  values \<open>randomIndex\<close> takes, one per iteration. The loop has no bound of its own:
  \<open>None\<close> says that it has not left after all the draws supplied.
\<close>

fun sample_loop :: "json \<Rightarrow> draw list \<Rightarrow> draw set \<Rightarrow> json list \<Rightarrow> (exn + json list) option" where
  "sample_loop data [] usedIndices randomPokemon =
     (if length randomPokemon < 10 then
        (case and_then (get_prop data ''results'') (\<lambda>r. get_prop r ''length'') of
           Inl e \<Rightarrow> Some (Inl e)
         | Inr n \<Rightarrow> None)
      else Some (Inr randomPokemon))"
| "sample_loop data (randomIndex # ds) usedIndices randomPokemon =
     (if length randomPokemon < 10 then
        (case and_then (get_prop data ''results'') (\<lambda>r. get_prop r ''length'') of
           Inl e \<Rightarrow> Some (Inl e)
         | Inr n \<Rightarrow>
             if randomIndex \<notin> usedIndices then
               (case and_then (get_prop data ''results'') (\<lambda>r. elem r randomIndex) of
                  Inl e \<Rightarrow> Some (Inl e)
                | Inr p \<Rightarrow> sample_loop data ds (insert randomIndex usedIndices) (randomPokemon @ [p]))
             else sample_loop data ds usedIndices randomPokemon)
      else Some (Inr randomPokemon))"

text \<open>
  The order of selection of a sequence of draws: every value once, at its first
  occurrence.
\<close>

function selection_order :: "nat list \<Rightarrow> nat list" where
  "selection_order [] = []"
| "selection_order (i # is) = i # selection_order (removeAll i is)"
  by pat_completeness auto
termination
  by (relation "measure length") (auto simp: less_Suc_eq_le)

section \<open>The detail record of \<open>fetchPokemonDetails\<close>\<close>

text \<open>
  Line 91: \<open>speciesData.flavor_text_entries[0]?.flavor_text || 'No description'\<close>. The
  optional chaining guards the entry only, not the list it is read from.
\<close>

definition description_of :: "json \<Rightarrow> exn + json" where
  "description_of speciesData =
     and_then (get_prop speciesData ''flavor_text_entries'') (\<lambda>entries.
     and_then (elem entries (Index 0)) (\<lambda>entry.
     Inr (js_or (opt_get entry ''flavor_text'') (JStr ''No description''))))"

text \<open>\<open>{...v}\<close>: the own enumerable properties of a value.\<close>

fun own_props :: "json \<Rightarrow> (string \<times> json) list" where
  "own_props (JObj kvs) = kvs"
| "own_props (JArr xs) = zip (map dec [0..<length xs]) xs"
| "own_props (JStr s) = zip (map dec [0..<length s]) (map (\<lambda>c. JStr [c]) s)"
| "own_props _ = []"

text \<open>A later key of an object literal replaces the value of an earlier equal key.\<close>

fun set_prop :: "(string \<times> json) list \<Rightarrow> string \<Rightarrow> json \<Rightarrow> (string \<times> json) list" where
  "set_prop [] k v = [(k, v)]"
| "set_prop ((k', v') # kvs) k v =
     (if k' = k then (k, v) # kvs else (k', v') # set_prop kvs k v)"

text \<open>Lines 89 to 92: \<open>{...data, description: d}\<close>.\<close>

definition with_description :: "json \<Rightarrow> json \<Rightarrow> json" where
  "with_description data d = JObj (set_prop (own_props data) ''description'' d)"

text \<open>Lines 62 to 66: the list item built from a sampled entry and its fetched record.\<close>

definition preview_item :: "json \<Rightarrow> json \<Rightarrow> exn + json" where
  "preview_item pokemon details =
     and_then (get_prop pokemon ''name'') (\<lambda>n.
     and_then (get_prop pokemon ''url'') (\<lambda>u.
     and_then (and_then (get_prop details ''sprites'') (\<lambda>sp. get_prop sp ''front_default'')) (\<lambda>img.
     Inr (JObj [(''name'', n), (''url'', u), (''image'', img)]))))"

section \<open>The component: its state, its pending calls and the events it reacts to\<close>

text \<open>The six \<open>useState\<close> cells of \<open>App\<close> (lines 32 to 37).\<close>

record app =
  pokemonList :: json
  selectedPokemon :: json
  loading :: bool
  detailsLoading :: bool
  error :: "string option"
  detailsError :: "string option"

text \<open>
  How a \<open>fetch\<close> settles: the promise rejects, or it resolves with a response of some
  status whose body \<open>response.json()\<close> parses (\<open>Some\<close>) or rejects (\<open>None\<close>). The model
  delivers the response and its parsed body in one event; the component does nothing
  between the two awaits.
\<close>

datatype reply = Rejected | Response nat "json option"

fun body_of :: "reply \<Rightarrow> exn + json" where
  "body_of Rejected = Inl NetworkError"
| "body_of (Response status None) = Inl SyntaxError"
| "body_of (Response status (Some v)) = Inr v"

text \<open>
  A call of one of the two async functions that is suspended at an \<open>await\<close>, with the
  local variables it resumes with:
  \<^item> \<open>AwaitIndex\<close>: \<open>fetchPokemonList\<close> at lines 44 and 45;
  \<^item> \<open>AwaitPreview pokemonWithImages pokemon rest\<close>: \<open>fetchPokemonList\<close> at lines 60 and 61,
    inside the \<open>for\<close> loop, \<open>rest\<close> being the entries of \<open>randomPokemon\<close> still to visit;
  \<^item> \<open>AwaitPrimary\<close>: \<open>fetchPokemonDetails\<close> at lines 83 and 84;
  \<^item> \<open>AwaitSpecies data\<close>: \<open>fetchPokemonDetails\<close> at lines 86 and 87.
\<close>

datatype task =
    AwaitIndex
  | AwaitPreview "json list" json "json list"
  | AwaitPrimary
  | AwaitSpecies json

text \<open>
  The component with its suspended calls. \<open>fetches\<close> records every call of \<open>fetch\<close> so
  far, in order, with the call that made it; \<open>console\<close> what \<open>console.log\<close> received.
\<close>

record sys =
  ui :: app
  tasks :: "nat \<Rightarrow> task option"
  next_id :: nat
  fetches :: "(nat \<times> json) list"
  console :: "exn list"

definition index_url :: json where
  "index_url = JStr ''https://pokeapi.co/api/v2/pokemon?limit=1000''"

text \<open>Lines 39 to 44: \<open>fetchPokemonList\<close> up to its first \<open>await\<close>.\<close>

definition fetchPokemonList :: "sys \<Rightarrow> sys" where
  "fetchPokemonList s =
     s\<lparr>ui := (ui s)\<lparr>loading := True, error := None\<rparr>,
       tasks := (tasks s)(next_id s \<mapsto> AwaitIndex),
       next_id := Suc (next_id s),
       fetches := fetches s @ [(next_id s, index_url)]\<rparr>"

text \<open>Lines 70 to 75: the \<open>catch\<close> and \<open>finally\<close> blocks of \<open>fetchPokemonList\<close>.\<close>

definition list_failed :: "nat \<Rightarrow> exn \<Rightarrow> sys \<Rightarrow> sys" where
  "list_failed t err s =
     s\<lparr>ui := (ui s)\<lparr>error := Some ''Failed to load Pokemon'', loading := False\<rparr>,
       console := console s @ [err],
       tasks := (tasks s)(t := None)\<rparr>"

text \<open>
  Lines 59 and 60, and 69 with the \<open>finally\<close> block: the head of the \<open>for\<close> loop. With an
  entry left it calls \<open>fetch(pokemon.url)\<close> and suspends; with none left it stores the
  list.
\<close>

fun preview_loop :: "nat \<Rightarrow> json list \<Rightarrow> json list \<Rightarrow> sys \<Rightarrow> sys" where
  "preview_loop t pokemonWithImages [] s =
     s\<lparr>ui := (ui s)\<lparr>pokemonList := JArr pokemonWithImages, loading := False\<rparr>,
       tasks := (tasks s)(t := None)\<rparr>"
| "preview_loop t pokemonWithImages (pokemon # rest) s =
     (case get_prop pokemon ''url'' of
        Inl e \<Rightarrow> list_failed t e s
      | Inr u \<Rightarrow>
          s\<lparr>tasks := (tasks s)(t \<mapsto> AwaitPreview pokemonWithImages pokemon rest),
            fetches := fetches s @ [(t, u)]\<rparr>)"

text \<open>Lines 78 to 83: \<open>fetchPokemonDetails\<close> up to its first \<open>await\<close>.\<close>

definition fetchPokemonDetails :: "json \<Rightarrow> sys \<Rightarrow> sys" where
  "fetchPokemonDetails url s =
     s\<lparr>ui := (ui s)\<lparr>detailsLoading := True, detailsError := None\<rparr>,
       tasks := (tasks s)(next_id s \<mapsto> AwaitPrimary),
       next_id := Suc (next_id s),
       fetches := fetches s @ [(next_id s, url)]\<rparr>"

text \<open>Lines 93 to 98: the \<open>catch\<close> and \<open>finally\<close> blocks of \<open>fetchPokemonDetails\<close>.\<close>

definition details_failed :: "nat \<Rightarrow> exn \<Rightarrow> sys \<Rightarrow> sys" where
  "details_failed t err s =
     s\<lparr>ui := (ui s)\<lparr>detailsError := Some ''Failed to load Pokemon details'', detailsLoading := False\<rparr>,
       console := console s @ [err],
       tasks := (tasks s)(t := None)\<rparr>"

text \<open>
  A suspended call resumes with the reply to its fetch. The draws are the values
  \<open>randomIndex\<close> takes if the sampling loop runs in this step. \<open>None\<close>: the step has not
  returned control after all the draws supplied.
\<close>

fun resume :: "nat \<Rightarrow> task \<Rightarrow> reply \<Rightarrow> draw list \<Rightarrow> sys \<Rightarrow> sys option" where
  "resume t AwaitIndex r ds s =
     (case body_of r of
        Inl e \<Rightarrow> Some (list_failed t e s)
      | Inr data \<Rightarrow>
          (case sample_loop data ds {} [] of
             None \<Rightarrow> None
           | Some (Inl e) \<Rightarrow> Some (list_failed t e s)
           | Some (Inr randomPokemon) \<Rightarrow> Some (preview_loop t [] randomPokemon s)))"
| "resume t (AwaitPreview pokemonWithImages pokemon rest) r ds s =
     (case and_then (body_of r) (preview_item pokemon) of
        Inl e \<Rightarrow> Some (list_failed t e s)
      | Inr item \<Rightarrow> Some (preview_loop t (pokemonWithImages @ [item]) rest s))"
| "resume t AwaitPrimary r ds s =
     (case body_of r of
        Inl e \<Rightarrow> Some (details_failed t e s)
      | Inr data \<Rightarrow>
          (case and_then (get_prop data ''species'') (\<lambda>sp. get_prop sp ''url'') of
             Inl e \<Rightarrow> Some (details_failed t e s)
           | Inr u \<Rightarrow>
               Some (s\<lparr>tasks := (tasks s)(t \<mapsto> AwaitSpecies data),
                       fetches := fetches s @ [(t, u)]\<rparr>)))"
| "resume t (AwaitSpecies data) r ds s =
     (case and_then (body_of r) description_of of
        Inl e \<Rightarrow> Some (details_failed t e s)
      | Inr d \<Rightarrow>
          Some (s\<lparr>ui := (ui s)\<lparr>selectedPokemon := with_description data d, detailsLoading := False\<rparr>,
                  tasks := (tasks s)(t := None)\<rparr>))"

text \<open>
  What happens to the component: it mounts (the effect of line 101), the user presses
  refresh, selects an entry of the list, presses retry, or the fetch of a suspended call
  settles.
\<close>

datatype event =
    Mount
  | Refresh
  | Select json
  | Retry
  | Settled nat reply "draw list"

text \<open>
  Line 129 is the retry handler:
  \<open>selectedPokemon && fetchPokemonDetails(selectedPokemon.species.url)\<close>. An exception
  in an event handler is not caught by the component and changes nothing.
\<close>

definition onRetry :: "sys \<Rightarrow> sys" where
  "onRetry s =
     (if truthy (selectedPokemon (ui s)) then
        (case and_then (get_prop (selectedPokemon (ui s)) ''species'') (\<lambda>sp. get_prop sp ''url'') of
           Inl e \<Rightarrow> s
         | Inr u \<Rightarrow> fetchPokemonDetails u s)
      else s)"

fun step :: "sys \<Rightarrow> event \<Rightarrow> sys option" where
  "step s Mount = Some (fetchPokemonList s)"
| "step s Refresh = Some (fetchPokemonList s)"
| "step s (Select url) = Some (fetchPokemonDetails url s)"
| "step s Retry = Some (onRetry s)"
| "step s (Settled t r ds) =
     (case tasks s t of None \<Rightarrow> Some s | Some k \<Rightarrow> resume t k r ds s)"

fun run :: "sys \<Rightarrow> event list \<Rightarrow> sys option" where
  "run s [] = Some s"
| "run s (e # es) = (case step s e of None \<Rightarrow> None | Some s' \<Rightarrow> run s' es)"

text \<open>The component before it mounts: the initial values of lines 32 to 37.\<close>

definition init :: sys where
  "init =
     \<lparr>ui = \<lparr>pokemonList = JArr [], selectedPokemon = JNull, loading = False,
            detailsLoading = False, error = None, detailsError = None\<rparr>,
      tasks = (\<lambda>t. None), next_id = 0, fetches = [], console = []\<rparr>"

section \<open>Runs in which no batch stores its list\<close>

text \<open>
  \<open>completes_batch s e\<close>: in state \<open>s\<close> the event \<open>e\<close> is the reply to the last preview
  fetch of a batch, and it succeeds (line 69 is reached). \<open>no_batch_completes s evs\<close>: no
  event of the run \<open>evs\<close> from \<open>s\<close> is one.
\<close>

fun last_preview_ok :: "task \<Rightarrow> reply \<Rightarrow> bool" where
  "last_preview_ok (AwaitPreview pokemonWithImages pokemon rest) r =
     (rest = [] \<and> (case and_then (body_of r) (preview_item pokemon) of
                      Inl e \<Rightarrow> False | Inr item \<Rightarrow> True))"
| "last_preview_ok k r = False"

fun completes_batch :: "sys \<Rightarrow> event \<Rightarrow> bool" where
  "completes_batch s (Settled t r ds) =
     (case tasks s t of None \<Rightarrow> False | Some k \<Rightarrow> last_preview_ok k r)"
| "completes_batch s e = False"

fun no_batch_completes :: "sys \<Rightarrow> event list \<Rightarrow> bool" where
  "no_batch_completes s [] = True"
| "no_batch_completes s (e # es) =
     (\<not> completes_batch s e \<and>
      (case step s e of None \<Rightarrow> True | Some s' \<Rightarrow> no_batch_completes s' es))"

section \<open>Bodies the catalog serves, for the concrete runs below\<close>

definition entry :: "nat \<Rightarrow> json" where
  "entry n = JObj [(''name'', JStr (''pokemon-'' @ dec n)),
                   (''url'', JStr (''https://pokeapi.co/api/v2/pokemon/'' @ dec n @ ''/''))]"

definition catalog :: "nat \<Rightarrow> json" where
  "catalog n = JObj [(''count'', JNum (of_nat n)), (''results'', JArr (map entry [0..<n]))]"

definition species_url :: "nat \<Rightarrow> json" where
  "species_url n = JStr (''https://pokeapi.co/api/v2/pokemon-species/'' @ dec n @ ''/'')"

definition pokemon_record :: "nat \<Rightarrow> json" where
  "pokemon_record n =
     JObj [(''id'', JNum (of_nat n)),
           (''name'', JStr (''pokemon-'' @ dec n)),
           (''species'', JObj [(''name'', JStr (''pokemon-'' @ dec n)), (''url'', species_url n)]),
           (''sprites'', JObj [(''front_default'', JStr (''sprite-'' @ dec n @ ''.png''))])]"

definition preview_of :: "nat \<Rightarrow> json" where
  "preview_of n = JObj [(''name'', JStr (''pokemon-'' @ dec n)),
                        (''url'', JStr (''https://pokeapi.co/api/v2/pokemon/'' @ dec n @ ''/'')),
                        (''image'', JStr (''sprite-'' @ dec n @ ''.png''))]"

definition species_record :: "string list \<Rightarrow> json" where
  "species_record texts =
     JObj [(''flavor_text_entries'', JArr (map (\<lambda>t. JObj [(''flavor_text'', JStr t)]) texts))]"

section \<open>The sampler\<close>

lemma set_selection_order: "set (selection_order xs) = set xs"
  by (induction xs rule: selection_order.induct) auto

lemma distinct_selection_order: "distinct (selection_order xs)"
  by (induction xs rule: selection_order.induct) (auto simp: set_selection_order)

lemma length_selection_order: "length (selection_order xs) = card (set xs)"
  using distinct_card [OF distinct_selection_order, of xs] by (simp add: set_selection_order)

lemma removeAll_filter_insert:
  "removeAll i (filter (\<lambda>j. j \<notin> U) xs) = filter (\<lambda>j. j \<notin> insert i U) xs"
  by (induction xs) auto

text \<open>
  On an array the loop is a function of the draws: it leaves once ten different indices
  have come up, with the entries at these indices in the order they first came up.
\<close>

lemma sample_loop_array:
  assumes res: "get_prop data ''results'' = Inr (JArr es)"
  shows "sample_loop data (map Index is) (Index ` U) acc =
     (if 10 - length acc \<le> length (selection_order (filter (\<lambda>i. i \<notin> U) is))
      then Some (Inr (acc @ map (\<lambda>j. if j < length es then es ! j else JUndefined)
                               (take (10 - length acc) (selection_order (filter (\<lambda>i. i \<notin> U) is)))))
      else None)"
proof (induction "is" arbitrary: U acc)
  case Nil
  show ?case using res by (simp add: and_then_def get_prop_def)
next
  case (Cons i "is")
  have len: "and_then (get_prop data ''results'') (\<lambda>r. get_prop r ''length'') = Inr (JNum (of_nat (length es)))"
    using res by (simp add: and_then_def get_prop_def)
  have el: "and_then (get_prop data ''results'') (\<lambda>r. elem r (Index i)) = Inr (if i < length es then es ! i else JUndefined)"
    using res by (simp add: and_then_def)
  show ?case
  proof (cases "length acc < 10")
    case False
    then show ?thesis by simp
  next
    case small: True
    show ?thesis
    proof (cases "i \<in> U")
      case True
      then have "Index i \<in> Index ` U" by simp
      then show ?thesis using small True len Cons.IH [of U acc] by simp
    next
      case False
      define p where "p = (if i < length es then es ! i else JUndefined)"
      define new where "new = selection_order (filter (\<lambda>j. j \<notin> insert i U) is)"
      have notin: "Index i \<notin> Index ` U" using False by auto
      have el': "and_then (get_prop data ''results'') (\<lambda>r. elem r (Index i)) = Inr p"
        using el by (simp add: p_def)
      have unf: "sample_loop data (map Index (i # is)) (Index ` U) acc
                 = sample_loop data (map Index is) (Index ` insert i U) (acc @ [p])"
        using small notin len el' by simp
      have so: "selection_order (filter (\<lambda>j. j \<notin> U) (i # is)) = i # new"
        using False by (simp add: removeAll_filter_insert new_def)
      have ih: "sample_loop data (map Index is) (Index ` insert i U) (acc @ [p]) =
          (if 10 - length (acc @ [p]) \<le> length new
           then Some (Inr ((acc @ [p]) @ map (\<lambda>j. if j < length es then es ! j else JUndefined)
                               (take (10 - length (acc @ [p])) new)))
           else None)"
        unfolding new_def by (rule Cons.IH)
      obtain k where k: "10 - length acc = Suc k" "10 - length (acc @ [p]) = k"
        using small by (cases "10 - length acc") auto
      show ?thesis
        unfolding unf ih so k by (simp add: p_def)
    qed
  qed
qed

text \<open>
  C8. On an index of at least ten entries, with draws that lie in the index: once the
  draws have taken ten different values the sampler returns, and what it returns is
  exactly ten entries of the index, taken at ten pairwise different indices, in the
  order in which these indices were first drawn. (The random source is the
  environment's. As long as it has produced fewer than ten different indices the loop
  is still running, and it returns nothing else.)
\<close>

theorem sampler_returns_ten_distinct:
  assumes res: "get_prop data ''results'' = Inr (JArr entries)"
      and len: "10 \<le> length entries"
      and rng: "\<forall>i\<in>set is. i < length entries"
  shows "(10 \<le> card (set is) \<longrightarrow>
            (\<exists>js. sample_loop data (map Index is) {} [] = Some (Inr (map (\<lambda>j. entries ! j) js))
                \<and> js = take 10 (selection_order is)
                \<and> length js = 10 \<and> distinct js \<and> (\<forall>j\<in>set js. j < length entries)))
         \<and> (card (set is) < 10 \<longrightarrow> sample_loop data (map Index is) {} [] = None)"
proof (intro conjI impI)
  assume var: "10 \<le> card (set is)"
  define js where "js = take 10 (selection_order is)"
  have sub: "set js \<subseteq> set is"
    unfolding js_def using set_take_subset [of 10 "selection_order is"]
    by (simp add: set_selection_order)
  have inr: "\<forall>j\<in>set js. j < length entries"
    using sub rng by blast
  have l: "length js = 10"
    unfolding js_def using var by (simp add: length_selection_order)
  have d: "distinct js"
    unfolding js_def by (simp add: distinct_selection_order)
  have m: "map (\<lambda>j. if j < length entries then entries ! j else JUndefined) js = map (\<lambda>j. entries ! j) js"
    using inr by (simp cong: map_cong)
  have "sample_loop data (map Index is) (Index ` {}) [] = Some (Inr (map (\<lambda>j. entries ! j) js))"
    unfolding sample_loop_array [OF res]
    using var m by (simp add: length_selection_order js_def)
  then show "\<exists>js. sample_loop data (map Index is) {} [] = Some (Inr (map (\<lambda>j. entries ! j) js))
                \<and> js = take 10 (selection_order is)
                \<and> length js = 10 \<and> distinct js \<and> (\<forall>j\<in>set js. j < length entries)"
    using l d inr js_def by auto
next
  assume few: "card (set is) < 10"
  have "sample_loop data (map Index is) (Index ` {}) [] = None"
    unfolding sample_loop_array [OF res]
    using few by (simp add: length_selection_order)
  then show "sample_loop data (map Index is) {} [] = None"
    by simp
qed

theorem sampler_returns_ten_distinct_witness:
  "sample_loop (catalog 12) (map Index [3, 3, 1, 0, 3, 2, 4, 1, 5, 6, 7, 8, 9, 11]) {} []
     = Some (Inr (map entry [3, 1, 0, 2, 4, 5, 6, 7, 8, 9]))"
proof -
  have h1: "get_prop (catalog 12) ''results'' = Inr (JArr (map entry [0..<12]))"
    by (simp add: catalog_def get_prop_def lookup_def)
  have h2: "10 \<le> length (map entry [0..<12])"
    by simp
  have h3: "\<forall>i\<in>set [3, 3, 1, 0, 3, 2, 4, 1, 5, 6, 7, 8, 9, 11::nat]. i < length (map entry [0..<12])"
    by simp
  have h4: "10 \<le> card (set [3, 3, 1, 0, 3, 2, 4, 1, 5, 6, 7, 8, 9, 11::nat])"
    unfolding card_set by simp
  obtain js where run: "sample_loop (catalog 12) (map Index [3, 3, 1, 0, 3, 2, 4, 1, 5, 6, 7, 8, 9, 11]) {} []
                           = Some (Inr (map (\<lambda>j. map entry [0..<12] ! j) js))"
      and js: "js = take 10 (selection_order [3, 3, 1, 0, 3, 2, 4, 1, 5, 6, 7, 8, 9, 11])"
    using sampler_returns_ten_distinct [OF h1 h2 h3] h4 by blast
  have order: "take 10 (selection_order [3, 3, 1, 0, 3, 2, 4, 1, 5, 6, 7, 8, 9, 11])
                 = [3, 1, 0, 2, 4, 5, 6, 7, 8, 9]"
    by code_simp
  have picked: "map (\<lambda>j. map entry [0..<12] ! j) [3, 1, 0, 2, 4, 5, 6, 7, 8, 9]
                  = map entry [3, 1, 0, 2, 4, 5, 6, 7, 8, 9]"
    by code_simp
  show ?thesis
    using run unfolding js order picked .
qed

text \<open>
  C3. The loop has no guard for an index of fewer than ten entries. Its draws lie in the
  index (a draw on an empty index is 0), so fewer than ten different indices ever come
  up: whatever the draws and however many, the step that received the index does not
  return. No error is caught, nothing is stored, no further fetch is made.
\<close>

theorem short_index_never_returns:
  assumes pend: "tasks s t = Some AwaitIndex"
      and res: "get_prop data ''results'' = Inr (JArr entries)"
      and len: "length entries < 10"
      and rng: "\<forall>i\<in>set is. i < max 1 (length entries)"
  shows "step s (Settled t (Response status (Some data)) (map Index is)) = None"
proof -
  have "set is \<subseteq> {..<max 1 (length entries)}"
    using rng by auto
  then have "card (set is) \<le> card {..<max 1 (length entries)}"
    by (intro card_mono) auto
  then have few: "card (set is) < 10"
    using len by auto
  have "sample_loop data (map Index is) (Index ` {}) [] = None"
    unfolding sample_loop_array [OF res]
    using few by (simp add: length_selection_order)
  then show ?thesis
    using pend by simp
qed

theorem short_index_never_returns_witness:
  "step (fetchPokemonList init)
        (Settled 0 (Response 200 (Some (catalog 3))) (map Index [0, 2, 2, 1, 0, 1, 2, 0, 1, 1, 2, 0])) = None"
proof -
  have h1: "tasks (fetchPokemonList init) 0 = Some AwaitIndex"
    by (simp add: fetchPokemonList_def init_def)
  have h2: "get_prop (catalog 3) ''results'' = Inr (JArr (map entry [0..<3]))"
    by (simp add: catalog_def get_prop_def lookup_def)
  have h3: "length (map entry [0..<3]) < 10"
    by simp
  have h4: "\<forall>i\<in>set [0, 2, 2, 1, 0, 1, 2, 0, 1, 1, 2, 0::nat]. i < max 1 (length (map entry [0..<3]))"
    by simp
  show ?thesis
    using short_index_never_returns [OF h1 h2 h3 h4] by simp
qed

section \<open>The detail load\<close>

lemmas js_defs = get_prop_def opt_get_def js_or_def and_then_def lookup_def
  description_of_def with_description_def preview_item_def

lemmas call_defs = fetchPokemonList_def fetchPokemonDetails_def list_failed_def
  details_failed_def onRetry_def init_def

lemmas body_defs = entry_def catalog_def species_url_def pokemon_record_def species_record_def
  index_url_def

lemma lookup_set_prop_same: "lookup (set_prop kvs k v) k = v"
  by (induction kvs) (auto simp: lookup_def)

lemma lookup_set_prop_other: "k' \<noteq> k \<Longrightarrow> lookup (set_prop kvs k v) k' = lookup kvs k'"
  by (induction kvs) (auto simp: lookup_def)

lemma description_wins: "get_prop (with_description data d) ''description'' = Inr d"
  by (simp add: with_description_def get_prop_def lookup_set_prop_same)

text \<open>
  C4, as the claim states it, fails twice. A first entry whose text is the empty string
  gives the sentinel, not the text. And a species record without the list does not give
  the sentinel: reading entry 0 of undefined throws, the \<open>catch\<close> block runs and the
  detail load ends in its error.
\<close>

theorem description_absent_list_or_empty_text:
  "description_of (species_record ['''']) = Inr (JStr ''No description'')
   \<and> description_of (JObj [(''name'', JStr ''pikachu'')]) = Inl TypeError
   \<and> map_option (\<lambda>s. (selectedPokemon (ui s), detailsError (ui s)))
        (run init [Select (JStr ''https://pokeapi.co/api/v2/pokemon/25/''),
                   Settled 0 (Response 200 (Some (pokemon_record 25))) [],
                   Settled 0 (Response 200 (Some (JObj [(''name'', JStr ''pikachu'')]))) []])
      = Some (JNull, Some ''Failed to load Pokemon details'')"
  by (simp add: js_defs call_defs body_defs)

text \<open>
  C4, amended. When the species record carries the list: an empty list gives the
  sentinel \<open>No description\<close>; so does a first entry without a text or with a falsy one
  (the empty string); a first entry whose text is a non-empty string gives that text
  unchanged. None of these is an error: the record is stored and the detail error is
  not set. In the stored record the computed description is the value of the key
  \<open>description\<close>, whatever the primary record held under it.
\<close>

theorem description_rule:
  assumes pend: "tasks s t = Some (AwaitSpecies data)"
      and lst: "get_prop speciesData ''flavor_text_entries'' = Inr (JArr es)"
  shows "\<exists>d s'. step s (Settled t (Response status (Some speciesData)) ds) = Some s'
           \<and> selectedPokemon (ui s') = with_description data d
           \<and> get_prop (selectedPokemon (ui s')) ''description'' = Inr d
           \<and> (\<forall>k. k \<noteq> ''description'' \<longrightarrow>
                 get_prop (selectedPokemon (ui s')) k = Inr (lookup (own_props data) k))
           \<and> detailsError (ui s') = detailsError (ui s)
           \<and> (es = [] \<longrightarrow> d = JStr ''No description'')
           \<and> (\<forall>e rest txt. es = e # rest \<and> opt_get e ''flavor_text'' = JStr txt \<and> txt \<noteq> [] \<longrightarrow> d = JStr txt)
           \<and> (\<forall>e rest. es = e # rest \<and> \<not> truthy (opt_get e ''flavor_text'') \<longrightarrow> d = JStr ''No description'')"
proof -
  define d where "d = (case es of [] \<Rightarrow> JStr ''No description''
                       | e # rest \<Rightarrow> js_or (opt_get e ''flavor_text'') (JStr ''No description''))"
  have dof: "description_of speciesData = Inr d"
    using lst by (cases es) (simp_all add: description_of_def and_then_def d_def js_or_def opt_get_def)
  define s' where "s' = s\<lparr>ui := (ui s)\<lparr>selectedPokemon := with_description data d, detailsLoading := False\<rparr>,
                           tasks := (tasks s)(t := None)\<rparr>"
  have st: "step s (Settled t (Response status (Some speciesData)) ds) = Some s'"
    using pend dof by (simp add: and_then_def s'_def)
  have sel: "selectedPokemon (ui s') = with_description data d"
    and err: "detailsError (ui s') = detailsError (ui s)"
    by (simp_all add: s'_def)
  have empty: "es = [] \<longrightarrow> d = JStr ''No description''"
    by (simp add: d_def)
  have verbatim: "\<forall>e rest txt. es = e # rest \<and> opt_get e ''flavor_text'' = JStr txt \<and> txt \<noteq> [] \<longrightarrow> d = JStr txt"
    by (auto simp: d_def js_or_def)
  have none: "\<forall>e rest. es = e # rest \<and> \<not> truthy (opt_get e ''flavor_text'') \<longrightarrow> d = JStr ''No description''"
    by (auto simp: d_def js_or_def)
  have others: "\<forall>k. k \<noteq> ''description'' \<longrightarrow>
                  get_prop (with_description data d) k = Inr (lookup (own_props data) k)"
    by (simp add: with_description_def get_prop_def lookup_set_prop_other)
  show ?thesis
    using st sel err empty verbatim none others description_wins [of data d] by auto
qed

theorem description_rule_witness:
  "\<exists>s'. step (init\<lparr>tasks := (tasks init)(0 \<mapsto> AwaitSpecies (JObj [(''description'', JStr ''primary''), (''id'', JNum 25)]))\<rparr>)
               (Settled 0 (Response 200 (Some (species_record [''It stores electricity.'', ''second'']))) []) = Some s'
      \<and> selectedPokemon (ui s') = JObj [(''description'', JStr ''It stores electricity.''), (''id'', JNum 25)]"
proof -
  have h1: "tasks (init\<lparr>tasks := (tasks init)(0 \<mapsto> AwaitSpecies (JObj [(''description'', JStr ''primary''), (''id'', JNum 25)]))\<rparr>) 0
              = Some (AwaitSpecies (JObj [(''description'', JStr ''primary''), (''id'', JNum 25)]))"
    by simp
  have h2: "get_prop (species_record [''It stores electricity.'', ''second'']) ''flavor_text_entries''
              = Inr (JArr [JObj [(''flavor_text'', JStr ''It stores electricity.'')], JObj [(''flavor_text'', JStr ''second'')]])"
    by (simp add: species_record_def get_prop_def lookup_def)
  show ?thesis
    using description_rule [OF h1 h2, of 200 "[]"]
    by (auto simp: opt_get_def lookup_def with_description_def)
qed


text \<open>
  C7. After the entry at \<open>pokemon/25/\<close> has been selected and loaded, retry does not
  fetch that URL again: it starts the detail load on \<open>selectedPokemon.species.url\<close>, the
  URL of the species record. And after a selection whose load failed with nothing
  loaded before, retry does nothing, although an entry is selected and its error is
  shown.
\<close>

theorem retry_fetches_species_url:
  "map_option fetches
     (run init [Select (JStr ''https://pokeapi.co/api/v2/pokemon/25/''),
                Settled 0 (Response 200 (Some (pokemon_record 25))) [],
                Settled 0 (Response 200 (Some (species_record [''It stores electricity.'']))) [],
                Retry])
   = Some [(0, JStr ''https://pokeapi.co/api/v2/pokemon/25/''),
           (0, JStr ''https://pokeapi.co/api/v2/pokemon-species/25/''),
           (1, JStr ''https://pokeapi.co/api/v2/pokemon-species/25/'')]
   \<and> map_option (\<lambda>s. (fetches s, detailsError (ui s), detailsLoading (ui s)))
     (run init [Select (JStr ''https://pokeapi.co/api/v2/pokemon/25/''),
                Settled 0 Rejected [],
                Retry])
   = Some ([(0, JStr ''https://pokeapi.co/api/v2/pokemon/25/'')], Some ''Failed to load Pokemon details'', False)"
  by (simp add: js_defs call_defs body_defs dec.simps)

section \<open>The list load and the two cells under overlapping calls\<close>

lemma ui_list_failed [simp]:
  "ui (list_failed t e s) = (ui s)\<lparr>error := Some ''Failed to load Pokemon'', loading := False\<rparr>"
  by (simp add: list_failed_def)

lemma ui_details_failed [simp]:
  "ui (details_failed t e s) = (ui s)\<lparr>detailsError := Some ''Failed to load Pokemon details'', detailsLoading := False\<rparr>"
  by (simp add: details_failed_def)

lemma ui_fetchPokemonList [simp]:
  "ui (fetchPokemonList s) = (ui s)\<lparr>loading := True, error := None\<rparr>"
  by (simp add: fetchPokemonList_def)

lemma ui_fetchPokemonDetails [simp]:
  "ui (fetchPokemonDetails u s) = (ui s)\<lparr>detailsLoading := True, detailsError := None\<rparr>"
  by (simp add: fetchPokemonDetails_def)

lemma pokemonList_onRetry [simp]: "pokemonList (ui (onRetry s)) = pokemonList (ui s)"
  by (simp add: onRetry_def split: sum.splits)

lemma pokemonList_preview_loop:
  "pokemonList (ui (preview_loop t acc todo s)) = (if todo = [] then JArr acc else pokemonList (ui s))"
  by (cases todo) (simp_all split: sum.splits)

lemma sample_loop_length:
  "sample_loop data ds used acc = Some (Inr r) \<Longrightarrow> length acc \<le> 10 \<Longrightarrow> length r = 10"
proof (induction ds arbitrary: used acc)
  case Nil
  then show ?case by (auto split: if_splits sum.splits)
next
  case (Cons d ds)
  show ?case
  proof (cases "length acc < 10")
    case False
    then show ?thesis using Cons.prems by auto
  next
    case True
    then have le: "length (acc @ [p]) \<le> 10" for p by simp
    show ?thesis
      using Cons.prems(1) True Cons.IH [OF _ le] Cons.IH [OF _ Cons.prems(2)]
      by (auto split: if_splits sum.splits)
  qed
qed

lemma sample_loop_nonempty:
  "sample_loop data ds {} [] = Some (Inr r) \<Longrightarrow> \<exists>p rest. r = p # rest \<and> length rest = 9"
  using sample_loop_length [of data ds "{}" "[]" r] by (cases r) auto

text \<open>The only step that changes the list is the one that ends a batch with success.\<close>

lemma step_changes_list:
  assumes st: "step s e = Some s'"
      and ch: "pokemonList (ui s') \<noteq> pokemonList (ui s)"
  shows "\<exists>t acc p r ds item. e = Settled t r ds \<and> tasks s t = Some (AwaitPreview acc p [])
           \<and> and_then (body_of r) (preview_item p) = Inr item
           \<and> pokemonList (ui s') = JArr (acc @ [item]) \<and> \<not> loading (ui s')"
proof (cases e)
  case (Settled t r ds)
  show ?thesis
  proof (cases "tasks s t")
    case None
    then show ?thesis using st ch Settled by simp
  next
    case (Some k)
    show ?thesis
    proof (cases k)
      case AwaitIndex
      then show ?thesis
        using st ch Settled Some
        by (auto simp: pokemonList_preview_loop dest: sample_loop_nonempty split: sum.splits option.splits if_splits)
    next
      case (AwaitPreview acc p rest)
      then show ?thesis
        using st ch Settled Some
        by (cases rest) (auto simp: pokemonList_preview_loop split: sum.splits option.splits if_splits)
    next
      case AwaitPrimary
      then show ?thesis
        using st ch Settled Some by (auto split: sum.splits)
    next
      case (AwaitSpecies data)
      then show ?thesis
        using st ch Settled Some by (auto split: sum.splits)
    qed
  qed
qed (use st ch in auto)


lemma run_while_loading:
  assumes "run s evs = Some s'"
      and "\<forall>k sk. 1 \<le> k \<and> k \<le> length evs \<and> run s (take k evs) = Some sk \<longrightarrow> loading (ui sk)"
  shows "pokemonList (ui s') = pokemonList (ui s)"
  using assms
proof (induction evs arbitrary: s)
  case Nil
  then show ?case by simp
next
  case (Cons e es)
  from Cons.prems(1) obtain s1 where s1: "step s e = Some s1" and rest: "run s1 es = Some s'"
    by (auto split: option.splits)
  have "run s (take 1 (e # es)) = Some s1"
    using s1 by simp
  then have "loading (ui s1)"
    using Cons.prems(2) by (metis One_nat_def Suc_leI le_refl length_Cons zero_less_Suc)
  then have one: "pokemonList (ui s1) = pokemonList (ui s)"
    using step_changes_list [OF s1] by blast
  have "\<forall>k sk. 1 \<le> k \<and> k \<le> length es \<and> run s1 (take k es) = Some sk \<longrightarrow> loading (ui sk)"
  proof (intro allI impI)
    fix k sk
    assume a: "1 \<le> k \<and> k \<le> length es \<and> run s1 (take k es) = Some sk"
    then have "run s (take (Suc k) (e # es)) = Some sk"
      using s1 by simp
    moreover have "1 \<le> Suc k \<and> Suc k \<le> length (e # es)"
      using a by simp
    ultimately show "loading (ui sk)"
      using Cons.prems(2) by blast
  qed
  from Cons.IH [OF rest this] one show ?case by simp
qed

text \<open>
  C9, amended. Starting a list load (on mount or on refresh) sets \<open>loading\<close>, clears
  \<open>error\<close> and leaves the list as it is. Over any run of events, as long as \<open>loading\<close> has
  been true after every event, the list is still the one the run started with. The list
  changes only in the step in which some batch, the one called last or an older one
  still running, receives the last of its previews with success; that step stores that
  batch's list and clears \<open>loading\<close>.
\<close>

theorem stale_list_while_loading:
  "(\<forall>e. e = Mount \<or> e = Refresh \<longrightarrow>
      (\<exists>s'. step s e = Some s' \<and> loading (ui s') \<and> error (ui s') = None
            \<and> pokemonList (ui s') = pokemonList (ui s)))
   \<and> (\<forall>evs s'. run s evs = Some s'
         \<and> (\<forall>k sk. 1 \<le> k \<and> k \<le> length evs \<and> run s (take k evs) = Some sk \<longrightarrow> loading (ui sk))
         \<longrightarrow> pokemonList (ui s') = pokemonList (ui s))
   \<and> (\<forall>e s'. step s e = Some s' \<and> pokemonList (ui s') \<noteq> pokemonList (ui s) \<longrightarrow>
         (\<exists>t acc p r ds item. e = Settled t r ds \<and> tasks s t = Some (AwaitPreview acc p [])
            \<and> and_then (body_of r) (preview_item p) = Inr item
            \<and> pokemonList (ui s') = JArr (acc @ [item]) \<and> \<not> loading (ui s')))"
proof (intro conjI allI impI)
  fix e assume "e = Mount \<or> e = Refresh"
  then show "\<exists>s'. step s e = Some s' \<and> loading (ui s') \<and> error (ui s') = None
            \<and> pokemonList (ui s') = pokemonList (ui s)"
    by auto
next
  fix evs s'
  assume "run s evs = Some s'
         \<and> (\<forall>k sk. 1 \<le> k \<and> k \<le> length evs \<and> run s (take k evs) = Some sk \<longrightarrow> loading (ui sk))"
  then show "pokemonList (ui s') = pokemonList (ui s)"
    using run_while_loading [of s evs s'] by blast
next
  fix e s'
  assume "step s e = Some s' \<and> pokemonList (ui s') \<noteq> pokemonList (ui s)"
  then show "\<exists>t acc p r ds item. e = Settled t r ds \<and> tasks s t = Some (AwaitPreview acc p [])
            \<and> and_then (body_of r) (preview_item p) = Inr item
            \<and> pokemonList (ui s') = JArr (acc @ [item]) \<and> \<not> loading (ui s')"
    using step_changes_list [of s e s'] by blast
qed

text \<open>Every suspended batch holds ten entries: those seen, the one in flight, those to come.\<close>

lemma step_batch_size:
  assumes st: "step s e = Some s'"
      and inv: "\<forall>t acc p rest. tasks s t = Some (AwaitPreview acc p rest) \<longrightarrow> length acc + length rest = 9"
  shows "\<forall>t acc p rest. tasks s' t = Some (AwaitPreview acc p rest) \<longrightarrow> length acc + length rest = 9"
proof (cases e)
  case (Settled t r ds)
  show ?thesis
  proof (cases "tasks s t")
    case None
    then show ?thesis using st inv Settled by simp
  next
    case (Some k)
    show ?thesis
    proof (cases k)
      case AwaitIndex
      then show ?thesis
        using st inv Settled Some
        by (auto simp: list_failed_def dest!: sample_loop_nonempty split: sum.splits option.splits if_splits)
    next
      case (AwaitPreview acc p rest)
      then have "length acc + length rest = 9" using inv Some by blast
      then show ?thesis
        using st inv Settled Some AwaitPreview
        by (cases rest) (auto simp: list_failed_def split: sum.splits option.splits if_splits)
    next
      case AwaitPrimary
      then show ?thesis
        using st inv Settled Some by (auto simp: details_failed_def split: sum.splits if_splits)
    next
      case (AwaitSpecies data)
      then show ?thesis
        using st inv Settled Some by (auto simp: details_failed_def split: sum.splits if_splits)
    qed
  qed
qed (use st inv in \<open>auto simp: fetchPokemonList_def fetchPokemonDetails_def onRetry_def split: sum.splits if_splits\<close>)

lemma step_list_shape:
  assumes st: "step s e = Some s'"
      and inv: "\<forall>t acc p rest. tasks s t = Some (AwaitPreview acc p rest) \<longrightarrow> length acc + length rest = 9"
      and shape: "\<exists>items. pokemonList (ui s) = JArr items \<and> (items = [] \<or> length items = 10)"
  shows "\<exists>items. pokemonList (ui s') = JArr items \<and> (items = [] \<or> length items = 10)"
proof (cases "pokemonList (ui s') = pokemonList (ui s)")
  case True
  then show ?thesis using shape by simp
next
  case False
  from step_changes_list [OF st False] obtain t acc p item
    where "tasks s t = Some (AwaitPreview acc p [])" "pokemonList (ui s') = JArr (acc @ [item])"
    by blast
  moreover from this inv have "length acc = 9" by fastforce
  ultimately show ?thesis by simp
qed

lemma run_list_shape:
  assumes "run s evs = Some s'"
      and "\<forall>t acc p rest. tasks s t = Some (AwaitPreview acc p rest) \<longrightarrow> length acc + length rest = 9"
      and "\<exists>items. pokemonList (ui s) = JArr items \<and> (items = [] \<or> length items = 10)"
  shows "\<exists>items. pokemonList (ui s') = JArr items \<and> (items = [] \<or> length items = 10)"
  using assms
proof (induction evs arbitrary: s)
  case Nil
  then show ?case by simp
next
  case (Cons e es)
  from Cons.prems(1) obtain s1 where s1: "step s e = Some s1" and rest: "run s1 es = Some s'"
    by (auto split: option.splits)
  show ?case
    using Cons.IH [OF rest step_batch_size [OF s1 Cons.prems(2)] step_list_shape [OF s1 Cons.prems(2) Cons.prems(3)]] .
qed

text \<open>
  C10. The list cell starts as the empty array, and in every state the component can
  reach it holds an array: the empty one it started with, or the ten items of a batch
  that succeeded. It is never null.
\<close>

theorem list_is_always_an_array:
  "pokemonList (ui init) = JArr []
   \<and> (\<forall>evs s. run init evs = Some s \<longrightarrow>
         (\<exists>items. pokemonList (ui s) = JArr items \<and> (items = [] \<or> length items = 10)))"
proof (intro conjI allI impI)
  show "pokemonList (ui init) = JArr []"
    by (simp add: init_def)
next
  fix evs s
  assume r: "run init evs = Some s"
  have a: "\<forall>t acc p rest. tasks init t = Some (AwaitPreview acc p rest) \<longrightarrow> length acc + length rest = 9"
    by (simp add: init_def)
  have b: "\<exists>items. pokemonList (ui init) = JArr items \<and> (items = [] \<or> length items = 10)"
    by (simp add: init_def)
  show "\<exists>items. pokemonList (ui s) = JArr items \<and> (items = [] \<or> length items = 10)"
    using run_list_shape [OF r a b] .
qed


lemma run_append:
  "run s (xs @ ys) = (case run s xs of None \<Rightarrow> None | Some s' \<Rightarrow> run s' ys)"
  by (induction xs arbitrary: s) (auto split: option.splits)

lemma preview_loop_overwrites:
  "preview_loop t acc todo (s\<lparr>tasks := (tasks s)(t \<mapsto> k), fetches := F\<rparr>)
     = preview_loop t acc todo (s\<lparr>fetches := F\<rparr>)"
  by (cases todo) (simp_all add: list_failed_def split: sum.splits)

text \<open>
  The \<open>for\<close> loop against replies that all succeed: each reply moves the loop on by one
  entry and makes it fetch the next one.
\<close>

lemma run_previews:
  assumes "list_all2 (\<lambda>q r. \<not> nullish q \<and> (\<exists>item. and_then (body_of r) (preview_item q) = Inr item)) qs rs"
  shows "\<exists>items. length items = length qs
           \<and> run (preview_loop t acc (qs @ todo) s) (map (\<lambda>r. Settled t r []) rs)
               = Some (preview_loop t (acc @ items) todo
                        (s\<lparr>fetches := fetches s @ map (\<lambda>q. (t, prop_of q ''url'')) qs\<rparr>))"
  using assms
proof (induction arbitrary: acc s rule: list_all2_induct)
  case Nil
  show ?case by simp
next
  case (Cons q qs r rs)
  from Cons.hyps(1) obtain item where q: "\<not> nullish q"
      and item: "and_then (body_of r) (preview_item q) = Inr item"
    by blast
  define s1 where "s1 = s\<lparr>tasks := (tasks s)(t \<mapsto> AwaitPreview acc q (qs @ todo)),
                          fetches := fetches s @ [(t, prop_of q ''url'')]\<rparr>"
  have start: "preview_loop t acc ((q # qs) @ todo) s = s1"
    using q by (simp add: get_prop_def s1_def)
  have one: "step s1 (Settled t r []) = Some (preview_loop t (acc @ [item]) (qs @ todo) s1)"
    using item by (simp add: s1_def)
  from Cons.IH [of "acc @ [item]" s1] obtain items where len: "length items = length qs"
      and rest: "run (preview_loop t (acc @ [item]) (qs @ todo) s1) (map (\<lambda>r. Settled t r []) rs)
                   = Some (preview_loop t ((acc @ [item]) @ items) todo
                            (s1\<lparr>fetches := fetches s1 @ map (\<lambda>q. (t, prop_of q ''url'')) qs\<rparr>))"
    by blast
  have same: "preview_loop t ((acc @ [item]) @ items) todo
                (s1\<lparr>fetches := fetches s1 @ map (\<lambda>q. (t, prop_of q ''url'')) qs\<rparr>)
              = preview_loop t (acc @ item # items) todo
                (s\<lparr>fetches := fetches s @ map (\<lambda>q. (t, prop_of q ''url'')) (q # qs)\<rparr>)"
    using preview_loop_overwrites [where t = t and acc = "acc @ item # items" and todo = todo and s = s
                                     and k = "AwaitPreview acc q (qs @ todo)"
                                     and F = "fetches s @ map (\<lambda>q. (t, prop_of q ''url'')) (q # qs)"]
    by (simp add: s1_def)
  have "run (preview_loop t acc ((q # qs) @ todo) s) (map (\<lambda>r. Settled t r []) (r # rs))
          = Some (preview_loop t (acc @ item # items) todo
                   (s\<lparr>fetches := fetches s @ map (\<lambda>q. (t, prop_of q ''url'')) (q # qs)\<rparr>))"
    unfolding start using one rest same by simp
  then show ?case
    using len by (intro exI [of _ "item # items"]) simp
qed

text \<open>A batch from the call to the moment the entry \<open>p\<close> is being fetched.\<close>

lemma run_batch_prefix:
  assumes smp: "sample_loop data ds {} [] = Some (Inr (seen @ p # todo))"
      and ok: "list_all2 (\<lambda>q r. \<not> nullish q \<and> (\<exists>item. and_then (body_of r) (preview_item q) = Inr item)) seen rs"
      and p: "\<not> nullish p"
      and call: "e = Mount \<or> e = Refresh"
  shows "\<exists>items. length items = length seen
           \<and> run s (e # Settled (next_id s) (Response status (Some data)) ds
                      # map (\<lambda>r. Settled (next_id s) r []) rs)
               = Some (s\<lparr>ui := (ui s)\<lparr>loading := True, error := None\<rparr>,
                         tasks := (tasks s)(next_id s \<mapsto> AwaitPreview items p todo),
                         next_id := Suc (next_id s),
                         fetches := fetches s @ (next_id s, index_url)
                                      # map (\<lambda>q. (next_id s, prop_of q ''url'')) (seen @ [p])\<rparr>)"
proof -
  define t where "t = next_id s"
  define s0 where "s0 = fetchPokemonList s"
  have st: "step s e = Some s0"
    using call by (auto simp: s0_def)
  have idx: "step s0 (Settled t (Response status (Some data)) ds)
               = Some (preview_loop t [] (seen @ p # todo) s0)"
    using smp by (simp add: s0_def t_def fetchPokemonList_def)
  from run_previews [OF ok, where t = t and acc = "[]" and todo = "p # todo" and s = s0] obtain items where len: "length items = length seen"
      and rn: "run (preview_loop t [] (seen @ p # todo) s0) (map (\<lambda>r. Settled t r []) rs)
                 = Some (preview_loop t ([] @ items) (p # todo)
                          (s0\<lparr>fetches := fetches s0 @ map (\<lambda>q. (t, prop_of q ''url'')) seen\<rparr>))"
    by blast
  have fin: "preview_loop t ([] @ items) (p # todo)
               (s0\<lparr>fetches := fetches s0 @ map (\<lambda>q. (t, prop_of q ''url'')) seen\<rparr>)
             = s\<lparr>ui := (ui s)\<lparr>loading := True, error := None\<rparr>,
                 tasks := (tasks s)(t \<mapsto> AwaitPreview items p todo),
                 next_id := Suc (next_id s),
                 fetches := fetches s @ (t, index_url) # map (\<lambda>q. (t, prop_of q ''url'')) (seen @ [p])\<rparr>"
    using p by (simp add: s0_def t_def fetchPokemonList_def get_prop_def)
  have "run s (e # Settled t (Response status (Some data)) ds # map (\<lambda>r. Settled t r []) rs)
          = Some (s\<lparr>ui := (ui s)\<lparr>loading := True, error := None\<rparr>,
                 tasks := (tasks s)(t \<mapsto> AwaitPreview items p todo),
                 next_id := Suc (next_id s),
                 fetches := fetches s @ (t, index_url) # map (\<lambda>q. (t, prop_of q ''url'')) (seen @ [p])\<rparr>)"
    using st idx rn fin by simp
  then show ?thesis
    using len unfolding t_def by blast
qed


lemma sample_catalog_12:
  "sample_loop (catalog 12) (map Index [3, 3, 1, 0, 3, 2, 4, 1, 5, 6, 7, 8, 9, 11]) {} []
     = Some (Inr (map entry [3, 1, 0] @ entry 2 # map entry [4, 5, 6, 7, 8, 9]))"
  by code_simp

lemma preview_replies_ok:
  "list_all2 (\<lambda>q r. \<not> nullish q \<and> (\<exists>item. and_then (body_of r) (preview_item q) = Inr item))
     (map entry [3, 1, 0])
     [Response 200 (Some (pokemon_record 3)), Response 200 (Some (pokemon_record 1)),
      Response 200 (Some (pokemon_record 0))]"
  by (simp add: entry_def pokemon_record_def preview_item_def and_then_def get_prop_def lookup_def)

text \<open>
  C2, as the claim states it, fails. When the index has been received and sampled, one
  preview fetch has been made, not ten; the second is made by the step that receives the
  reply to the first. And when the first preview fetch rejects, the batch has failed
  (error set, \<open>loading\<close> false) although nine of its ten fetches were never made, let alone
  settled.
\<close>

theorem previews_fetched_in_parallel_counterexample:
  "map_option (\<lambda>s. (map snd (fetches s), loading (ui s), error (ui s)))
     (run init [Mount,
                Settled 0 (Response 200 (Some (catalog 12))) (map Index [3, 3, 1, 0, 3, 2, 4, 1, 5, 6, 7, 8, 9, 11])])
   = Some ([index_url, JStr ''https://pokeapi.co/api/v2/pokemon/3/''], True, None)
   \<and> map_option (\<lambda>s. (map snd (fetches s), loading (ui s), error (ui s)))
     (run init [Mount,
                Settled 0 (Response 200 (Some (catalog 12))) (map Index [3, 3, 1, 0, 3, 2, 4, 1, 5, 6, 7, 8, 9, 11]),
                Settled 0 (Response 200 (Some (pokemon_record 3))) []])
   = Some ([index_url, JStr ''https://pokeapi.co/api/v2/pokemon/3/'',
            JStr ''https://pokeapi.co/api/v2/pokemon/1/''], True, None)
   \<and> map_option (\<lambda>s. (map snd (fetches s), loading (ui s), error (ui s)))
     (run init [Mount,
                Settled 0 (Response 200 (Some (catalog 12))) (map Index [3, 3, 1, 0, 3, 2, 4, 1, 5, 6, 7, 8, 9, 11]),
                Settled 0 Rejected []])
   = Some ([index_url, JStr ''https://pokeapi.co/api/v2/pokemon/3/''], False, Some ''Failed to load Pokemon'')"
  using sample_catalog_12
  by (simp add: fetchPokemonList_def list_failed_def init_def entry_def pokemon_record_def
        preview_item_def and_then_def get_prop_def lookup_def dec.simps)

text \<open>
  C2, amended. The previews are fetched one at a time, in the sampler's order, each after
  the reply to the one before: when the replies to the first \<open>k\<close> sampled entries have
  arrived and succeeded, the fetches this call has made are the index, those \<open>k\<close> and the
  next one, the call is suspended on that next fetch, and the component's state is still
  the one the call set (\<open>loading\<close> true, no error). A reply that fails ends the batch at
  once with the error, and no later entry is fetched; success is stored only with the
  reply to the last entry.
\<close>

theorem previews_one_at_a_time:
  assumes smp: "sample_loop data ds {} [] = Some (Inr (seen @ p # todo))"
      and ok: "list_all2 (\<lambda>q r. \<not> nullish q \<and> (\<exists>item. and_then (body_of r) (preview_item q) = Inr item)) seen rs"
      and p: "\<not> nullish p"
      and call: "e = Mount \<or> e = Refresh"
  shows "\<exists>s' items.
           run s (e # Settled (next_id s) (Response status (Some data)) ds
                    # map (\<lambda>r. Settled (next_id s) r []) rs) = Some s'
           \<and> fetches s' = fetches s @ (next_id s, index_url)
                             # map (\<lambda>q. (next_id s, prop_of q ''url'')) (seen @ [p])
           \<and> tasks s' (next_id s) = Some (AwaitPreview items p todo)
           \<and> length items = length seen
           \<and> ui s' = (ui s)\<lparr>loading := True, error := None\<rparr>
           \<and> (\<forall>r err. and_then (body_of r) (preview_item p) = Inl err \<longrightarrow>
                 (\<exists>s''. step s' (Settled (next_id s) r []) = Some s''
                    \<and> error (ui s'') = Some ''Failed to load Pokemon'' \<and> \<not> loading (ui s'')
                    \<and> fetches s'' = fetches s'))
           \<and> (\<forall>r item. and_then (body_of r) (preview_item p) = Inr item \<and> todo = [] \<longrightarrow>
                 (\<exists>s''. step s' (Settled (next_id s) r []) = Some s''
                    \<and> pokemonList (ui s'') = JArr (items @ [item]) \<and> \<not> loading (ui s'')
                    \<and> fetches s'' = fetches s'))"
proof -
  from run_batch_prefix [OF smp ok p call, of s status] obtain items
    where len: "length items = length seen"
      and rn: "run s (e # Settled (next_id s) (Response status (Some data)) ds
                        # map (\<lambda>r. Settled (next_id s) r []) rs)
                 = Some (s\<lparr>ui := (ui s)\<lparr>loading := True, error := None\<rparr>,
                           tasks := (tasks s)(next_id s \<mapsto> AwaitPreview items p todo),
                           next_id := Suc (next_id s),
                           fetches := fetches s @ (next_id s, index_url)
                                        # map (\<lambda>q. (next_id s, prop_of q ''url'')) (seen @ [p])\<rparr>)"
    by blast
  define s' where "s' = s\<lparr>ui := (ui s)\<lparr>loading := True, error := None\<rparr>,
                           tasks := (tasks s)(next_id s \<mapsto> AwaitPreview items p todo),
                           next_id := Suc (next_id s),
                           fetches := fetches s @ (next_id s, index_url)
                                        # map (\<lambda>q. (next_id s, prop_of q ''url'')) (seen @ [p])\<rparr>"
  have pend: "tasks s' (next_id s) = Some (AwaitPreview items p todo)"
    by (simp add: s'_def)
  have fail: "\<forall>r err. and_then (body_of r) (preview_item p) = Inl err \<longrightarrow>
                 (\<exists>s''. step s' (Settled (next_id s) r []) = Some s''
                    \<and> error (ui s'') = Some ''Failed to load Pokemon'' \<and> \<not> loading (ui s'')
                    \<and> fetches s'' = fetches s')"
    using pend by (simp add: list_failed_def)
  have succ: "\<forall>r item. and_then (body_of r) (preview_item p) = Inr item \<and> todo = [] \<longrightarrow>
                 (\<exists>s''. step s' (Settled (next_id s) r []) = Some s''
                    \<and> pokemonList (ui s'') = JArr (items @ [item]) \<and> \<not> loading (ui s'')
                    \<and> fetches s'' = fetches s')"
    using pend by simp
  have f: "fetches s' = fetches s @ (next_id s, index_url)
                             # map (\<lambda>q. (next_id s, prop_of q ''url'')) (seen @ [p])"
    and u: "ui s' = (ui s)\<lparr>loading := True, error := None\<rparr>"
    by (simp_all add: s'_def)
  show ?thesis
    using rn [folded s'_def] f pend len u fail succ by blast
qed

theorem previews_one_at_a_time_witness:
  "\<exists>s'. run init [Mount,
                   Settled 0 (Response 200 (Some (catalog 12))) (map Index [3, 3, 1, 0, 3, 2, 4, 1, 5, 6, 7, 8, 9, 11]),
                   Settled 0 (Response 200 (Some (pokemon_record 3))) [],
                   Settled 0 (Response 200 (Some (pokemon_record 1))) [],
                   Settled 0 (Response 200 (Some (pokemon_record 0))) []] = Some s'
      \<and> map snd (fetches s') = index_url # map (\<lambda>q. prop_of q ''url'') (map entry [3, 1, 0, 2])
      \<and> loading (ui s') \<and> pokemonList (ui s') = JArr []"
proof -
  have p: "\<not> nullish (entry 2)"
    by (simp add: entry_def)
  show ?thesis
    using previews_one_at_a_time [OF sample_catalog_12 preview_replies_ok p, of Mount init 200]
    by (auto simp: init_def comp_def)
qed


text \<open>
  C1, as the claim states it, fails. Entry 1 is selected, then entry 2 before anything
  has settled; the two fetches of entry 2 settle first, then those of entry 1. The
  detail cell ends with the record of entry 1, the older selection.
\<close>

theorem stale_result_overwrites:
  "map_option (\<lambda>s. selectedPokemon (ui s))
     (run init [Select (JStr ''https://pokeapi.co/api/v2/pokemon/1/''),
                Select (JStr ''https://pokeapi.co/api/v2/pokemon/2/''),
                Settled 1 (Response 200 (Some (pokemon_record 2))) [],
                Settled 1 (Response 200 (Some (species_record [''B'']))) [],
                Settled 0 (Response 200 (Some (pokemon_record 1))) [],
                Settled 0 (Response 200 (Some (species_record [''A'']))) []])
   = Some (with_description (pokemon_record 1) (JStr ''A''))
   \<and> with_description (pokemon_record 1) (JStr ''A'') \<noteq> with_description (pokemon_record 2) (JStr ''B'')"
  by (simp add: fetchPokemonDetails_def init_def pokemon_record_def species_record_def species_url_def
        description_of_def with_description_def js_or_def opt_get_def and_then_def get_prop_def
        lookup_def dec.simps)

theorem stale_list_while_loading_witness:
  "\<exists>s'. run (init\<lparr>ui := (ui init)\<lparr>pokemonList := JArr (map preview_of [3, 1, 0, 2, 4, 5, 6, 7, 8, 9])\<rparr>\<rparr>)
             [Refresh,
              Settled 0 (Response 200 (Some (catalog 12))) (map Index [3, 3, 1, 0, 3, 2, 4, 1, 5, 6, 7, 8, 9, 11]),
              Settled 0 (Response 200 (Some (pokemon_record 3))) []] = Some s'
      \<and> loading (ui s')
      \<and> pokemonList (ui s') = JArr (map preview_of [3, 1, 0, 2, 4, 5, 6, 7, 8, 9])"
proof -
  define s0 where "s0 = init\<lparr>ui := (ui init)\<lparr>pokemonList := JArr (map preview_of [3, 1, 0, 2, 4, 5, 6, 7, 8, 9])\<rparr>\<rparr>"
  define evs where "evs = [Refresh,
              Settled 0 (Response 200 (Some (catalog 12))) (map Index [3, 3, 1, 0, 3, 2, 4, 1, 5, 6, 7, 8, 9, 11]),
              Settled 0 (Response 200 (Some (pokemon_record 3))) []]"
  have r1: "run s0 (take 1 evs) = Some (fetchPokemonList s0)"
    by (simp add: evs_def)
  have r2: "run s0 (take 2 evs) = Some (preview_loop 0 [] (map entry [3, 1, 0] @ entry 2 # map entry [4, 5, 6, 7, 8, 9]) (fetchPokemonList s0))"
    using sample_catalog_12 by (simp add: evs_def s0_def init_def fetchPokemonList_def)
  obtain s3 where r3: "run s0 evs = Some s3" and l3: "loading (ui s3)"
    using sample_catalog_12
    by (simp add: evs_def s0_def init_def fetchPokemonList_def entry_def pokemon_record_def
          preview_item_def and_then_def get_prop_def lookup_def)
  have l1: "loading (ui (fetchPokemonList s0))"
    by simp
  have l2: "loading (ui (preview_loop 0 [] (map entry [3, 1, 0] @ entry 2 # map entry [4, 5, 6, 7, 8, 9]) (fetchPokemonList s0)))"
    by (simp add: entry_def get_prop_def)
  have all: "\<forall>k sk. 1 \<le> k \<and> k \<le> length evs \<and> run s0 (take k evs) = Some sk \<longrightarrow> loading (ui sk)"
  proof (intro allI impI)
    fix k sk
    assume a: "1 \<le> k \<and> k \<le> length evs \<and> run s0 (take k evs) = Some sk"
    then have "k \<le> 3" by (simp add: evs_def)
    with a consider "k = 1" | "k = 2" | "k = 3" by linarith
    then show "loading (ui sk)"
    proof cases
      case 1
      then show ?thesis using a r1 l1 by simp
    next
      case 2
      then show ?thesis using a r2 l2 by simp
    next
      case 3
      then have "take k evs = evs" by (simp add: evs_def)
      then show ?thesis using a r3 l3 by simp
    qed
  qed
  have "pokemonList (ui s3) = pokemonList (ui s0)"
    using stale_list_while_loading [of s0] r3 all by blast
  then show ?thesis
    using r3 l3 unfolding s0_def evs_def by simp
qed

theorem list_is_always_an_array_witness:
  "\<exists>s items. run init [Mount,
                   Settled 0 (Response 200 (Some (catalog 12))) (map Index [3, 3, 1, 0, 3, 2, 4, 1, 5, 6, 7, 8, 9, 11]),
                   Settled 0 (Response 200 (Some (pokemon_record 3))) [],
                   Settled 0 (Response 200 (Some (pokemon_record 1))) [],
                   Settled 0 (Response 200 (Some (pokemon_record 0))) [],
                   Settled 0 (Response 200 (Some (pokemon_record 2))) [],
                   Settled 0 (Response 200 (Some (pokemon_record 4))) [],
                   Settled 0 (Response 200 (Some (pokemon_record 5))) [],
                   Settled 0 (Response 200 (Some (pokemon_record 6))) [],
                   Settled 0 (Response 200 (Some (pokemon_record 7))) [],
                   Settled 0 (Response 200 (Some (pokemon_record 8))) [],
                   Settled 0 (Response 200 (Some (pokemon_record 9))) []] = Some s
      \<and> pokemonList (ui s) = JArr items \<and> length items = 10"
proof -
  obtain s where r: "run init [Mount,
                   Settled 0 (Response 200 (Some (catalog 12))) (map Index [3, 3, 1, 0, 3, 2, 4, 1, 5, 6, 7, 8, 9, 11]),
                   Settled 0 (Response 200 (Some (pokemon_record 3))) [],
                   Settled 0 (Response 200 (Some (pokemon_record 1))) [],
                   Settled 0 (Response 200 (Some (pokemon_record 0))) [],
                   Settled 0 (Response 200 (Some (pokemon_record 2))) [],
                   Settled 0 (Response 200 (Some (pokemon_record 4))) [],
                   Settled 0 (Response 200 (Some (pokemon_record 5))) [],
                   Settled 0 (Response 200 (Some (pokemon_record 6))) [],
                   Settled 0 (Response 200 (Some (pokemon_record 7))) [],
                   Settled 0 (Response 200 (Some (pokemon_record 8))) [],
                   Settled 0 (Response 200 (Some (pokemon_record 9))) []] = Some s"
      and ne: "pokemonList (ui s) \<noteq> JArr []"
    using sample_catalog_12
    by (simp add: init_def fetchPokemonList_def entry_def pokemon_record_def
          preview_item_def and_then_def get_prop_def lookup_def)
  from list_is_always_an_array r obtain items
    where "pokemonList (ui s) = JArr items" "items = [] \<or> length items = 10"
    by blast
  then show ?thesis
    using r ne by auto
qed

lemma step_quiet:
  assumes "step s e = Some s'" and "\<not> completes_batch s e"
  shows "pokemonList (ui s') = pokemonList (ui s)"
proof (rule ccontr)
  assume "pokemonList (ui s') \<noteq> pokemonList (ui s)"
  from step_changes_list [OF assms(1) this] have "completes_batch s e"
    by auto
  with assms(2) show False by simp
qed

lemma run_quiet:
  assumes "run s evs = Some s'" and "no_batch_completes s evs"
  shows "pokemonList (ui s') = pokemonList (ui s)"
  using assms
proof (induction evs arbitrary: s)
  case Nil
  then show ?case by simp
next
  case (Cons e es)
  from Cons.prems(1) obtain s1 where s1: "step s e = Some s1" and rest: "run s1 es = Some s'"
    by (auto split: option.splits)
  from Cons.prems(2) s1 have q: "\<not> completes_batch s e" and qs: "no_batch_completes s1 es"
    by simp_all
  from Cons.IH [OF rest qs] step_quiet [OF s1 q] show ?case by simp
qed

lemma preview_item_sprites:
  "\<not> nullish p \<Longrightarrow>
   preview_item p details =
     (case and_then (get_prop details ''sprites'') (\<lambda>sp. get_prop sp ''front_default'') of
        Inl err \<Rightarrow> Inl err
      | Inr img \<Rightarrow> Inr (JObj [(''name'', prop_of p ''name''), (''url'', prop_of p ''url''), (''image'', img)]))"
  by (simp add: preview_item_def and_then_def get_prop_def split: sum.splits)

text \<open>When the reply to a preview fetch makes the batch fail.\<close>

lemma preview_reply_fails:
  assumes p: "\<not> nullish p"
      and bad: "r = Rejected \<or> (\<exists>st. r = Response st None)
                \<or> (\<exists>st details err. r = Response st (Some details)
                      \<and> and_then (get_prop details ''sprites'') (\<lambda>sp. get_prop sp ''front_default'') = Inl err)"
  shows "\<exists>err. and_then (body_of r) (preview_item p) = Inl err"
  using bad preview_item_sprites [OF p]
  by (auto simp: and_then_def)

lemma failing_step:
  assumes pend: "tasks s t = Some (AwaitPreview acc p rest)"
      and bad: "and_then (body_of r) (preview_item p) = Inl err"
  shows "step s (Settled t r ds) = Some (list_failed t err s)"
  using pend bad by simp

text \<open>
  C6, amended. A preview fetch fails when it rejects, when its body is not JSON, or when
  its record has no sprites to read; the status of the response plays no part.
  \<^item> In whatever state a batch receives such a reply, that step sets the error message
    \<open>Failed to load Pokemon\<close>, clears \<open>loading\<close>, leaves the list as it is and ends the
    call: the call is no longer suspended, it has made no further fetch, and a later
    reply addressed to it changes nothing.
  \<^item> A batch that runs alone from its call (on mount or refresh, in any state), with the
    previews before the failing one all succeeding, ends so with the list that was
    there before the call, having fetched the index and the entries up to the failing
    one and nothing else.
  \<^item> With any other events in between, as long as no batch has stored its list between
    the call and the failing reply, the list after the failure is the one that was
    there before the call.
\<close>

theorem batch_all_or_nothing:
  "(tasks s t = Some (AwaitPreview acc p rest) \<and> \<not> nullish p
      \<and> (r = Rejected \<or> (\<exists>st. r = Response st None)
          \<or> (\<exists>st details err. r = Response st (Some details)
                \<and> and_then (get_prop details ''sprites'') (\<lambda>sp. get_prop sp ''front_default'') = Inl err))
    \<longrightarrow> (\<exists>s'. step s (Settled t r ds) = Some s'
            \<and> error (ui s') = Some ''Failed to load Pokemon'' \<and> \<not> loading (ui s')
            \<and> pokemonList (ui s') = pokemonList (ui s)
            \<and> tasks s' t = None \<and> fetches s' = fetches s
            \<and> (\<forall>r' ds'. step s' (Settled t r' ds') = Some s')))
   \<and> ((e = Mount \<or> e = Refresh)
      \<and> sample_loop data0 ds0 {} [] = Some (Inr (seen @ q # todo))
      \<and> list_all2 (\<lambda>q r. \<not> nullish q \<and> (\<exists>item. and_then (body_of r) (preview_item q) = Inr item)) seen rs
      \<and> \<not> nullish q
      \<and> (r0 = Rejected \<or> (\<exists>st. r0 = Response st None)
          \<or> (\<exists>st details err. r0 = Response st (Some details)
                \<and> and_then (get_prop details ''sprites'') (\<lambda>sp. get_prop sp ''front_default'') = Inl err))
    \<longrightarrow> (\<exists>s'. run s0 (e # Settled (next_id s0) (Response status (Some data0)) ds0
                          # map (\<lambda>r. Settled (next_id s0) r []) (rs @ [r0])) = Some s'
            \<and> error (ui s') = Some ''Failed to load Pokemon'' \<and> \<not> loading (ui s')
            \<and> pokemonList (ui s') = pokemonList (ui s0)
            \<and> tasks s' (next_id s0) = None
            \<and> fetches s' = fetches s0 @ (next_id s0, index_url)
                              # map (\<lambda>q. (next_id s0, prop_of q ''url'')) (seen @ [q])
            \<and> (\<forall>r' ds'. step s' (Settled (next_id s0) r' ds') = Some s')))
   \<and> ((e1 = Mount \<or> e1 = Refresh)
      \<and> run s1 (e1 # evs) = Some mid \<and> no_batch_completes s1 (e1 # evs)
      \<and> tasks mid (next_id s1) = Some (AwaitPreview acc1 p1 rest1) \<and> \<not> nullish p1
      \<and> (r1 = Rejected \<or> (\<exists>st. r1 = Response st None)
          \<or> (\<exists>st details err. r1 = Response st (Some details)
                \<and> and_then (get_prop details ''sprites'') (\<lambda>sp. get_prop sp ''front_default'') = Inl err))
    \<longrightarrow> (\<exists>s'. step mid (Settled (next_id s1) r1 ds1) = Some s'
            \<and> error (ui s') = Some ''Failed to load Pokemon'' \<and> \<not> loading (ui s')
            \<and> pokemonList (ui s') = pokemonList (ui s1)
            \<and> tasks s' (next_id s1) = None \<and> fetches s' = fetches mid))"
proof (intro conjI impI)
  assume a: "tasks s t = Some (AwaitPreview acc p rest) \<and> \<not> nullish p
      \<and> (r = Rejected \<or> (\<exists>st. r = Response st None)
          \<or> (\<exists>st details err. r = Response st (Some details)
                \<and> and_then (get_prop details ''sprites'') (\<lambda>sp. get_prop sp ''front_default'') = Inl err))"
  then obtain err where "and_then (body_of r) (preview_item p) = Inl err"
    using preview_reply_fails [of p r] by blast
  with a have "step s (Settled t r ds) = Some (list_failed t err s)"
    using failing_step by blast
  then show "\<exists>s'. step s (Settled t r ds) = Some s'
            \<and> error (ui s') = Some ''Failed to load Pokemon'' \<and> \<not> loading (ui s')
            \<and> pokemonList (ui s') = pokemonList (ui s)
            \<and> tasks s' t = None \<and> fetches s' = fetches s
            \<and> (\<forall>r' ds'. step s' (Settled t r' ds') = Some s')"
    by (simp add: list_failed_def)
next
  assume a: "(e = Mount \<or> e = Refresh)
      \<and> sample_loop data0 ds0 {} [] = Some (Inr (seen @ q # todo))
      \<and> list_all2 (\<lambda>q r. \<not> nullish q \<and> (\<exists>item. and_then (body_of r) (preview_item q) = Inr item)) seen rs
      \<and> \<not> nullish q
      \<and> (r0 = Rejected \<or> (\<exists>st. r0 = Response st None)
          \<or> (\<exists>st details err. r0 = Response st (Some details)
                \<and> and_then (get_prop details ''sprites'') (\<lambda>sp. get_prop sp ''front_default'') = Inl err))"
  then have call: "e = Mount \<or> e = Refresh"
    and smp: "sample_loop data0 ds0 {} [] = Some (Inr (seen @ q # todo))"
    and ok: "list_all2 (\<lambda>q r. \<not> nullish q \<and> (\<exists>item. and_then (body_of r) (preview_item q) = Inr item)) seen rs"
    and q: "\<not> nullish q"
    by blast+
  from a obtain err where bad: "and_then (body_of r0) (preview_item q) = Inl err"
    using preview_reply_fails [of q r0] by blast
  define t0 where "t0 = next_id s0"
  from run_batch_prefix [OF smp ok q call, of s0 status] obtain items
    where mid: "run s0 (e # Settled t0 (Response status (Some data0)) ds0
                         # map (\<lambda>r. Settled t0 r []) rs)
                  = Some (s0\<lparr>ui := (ui s0)\<lparr>loading := True, error := None\<rparr>,
                            tasks := (tasks s0)(t0 \<mapsto> AwaitPreview items q todo),
                            next_id := Suc (next_id s0),
                            fetches := fetches s0 @ (t0, index_url)
                                         # map (\<lambda>q. (t0, prop_of q ''url'')) (seen @ [q])\<rparr>)"
    unfolding t0_def by blast
  define m where "m = s0\<lparr>ui := (ui s0)\<lparr>loading := True, error := None\<rparr>,
                            tasks := (tasks s0)(t0 \<mapsto> AwaitPreview items q todo),
                            next_id := Suc (next_id s0),
                            fetches := fetches s0 @ (t0, index_url)
                                         # map (\<lambda>q. (t0, prop_of q ''url'')) (seen @ [q])\<rparr>"
  have pend: "tasks m t0 = Some (AwaitPreview items q todo)"
    by (simp add: m_def)
  have last: "step m (Settled t0 r0 []) = Some (list_failed t0 err m)"
    using failing_step [OF pend bad] .
  have split: "e # Settled t0 (Response status (Some data0)) ds0 # map (\<lambda>r. Settled t0 r []) (rs @ [r0])
               = (e # Settled t0 (Response status (Some data0)) ds0 # map (\<lambda>r. Settled t0 r []) rs)
                  @ [Settled t0 r0 []]"
    by simp
  have "run s0 (e # Settled t0 (Response status (Some data0)) ds0 # map (\<lambda>r. Settled t0 r []) (rs @ [r0]))
          = Some (list_failed t0 err m)"
    unfolding split run_append using mid [folded m_def] last by simp
  then show "\<exists>s'. run s0 (e # Settled (next_id s0) (Response status (Some data0)) ds0
                          # map (\<lambda>r. Settled (next_id s0) r []) (rs @ [r0])) = Some s'
            \<and> error (ui s') = Some ''Failed to load Pokemon'' \<and> \<not> loading (ui s')
            \<and> pokemonList (ui s') = pokemonList (ui s0)
            \<and> tasks s' (next_id s0) = None
            \<and> fetches s' = fetches s0 @ (next_id s0, index_url)
                              # map (\<lambda>q. (next_id s0, prop_of q ''url'')) (seen @ [q])
            \<and> (\<forall>r' ds'. step s' (Settled (next_id s0) r' ds') = Some s')"
    unfolding t0_def [symmetric] by (simp add: list_failed_def m_def)
next
  assume a: "(e1 = Mount \<or> e1 = Refresh)
      \<and> run s1 (e1 # evs) = Some mid \<and> no_batch_completes s1 (e1 # evs)
      \<and> tasks mid (next_id s1) = Some (AwaitPreview acc1 p1 rest1) \<and> \<not> nullish p1
      \<and> (r1 = Rejected \<or> (\<exists>st. r1 = Response st None)
          \<or> (\<exists>st details err. r1 = Response st (Some details)
                \<and> and_then (get_prop details ''sprites'') (\<lambda>sp. get_prop sp ''front_default'') = Inl err))"
  then obtain err where bad: "and_then (body_of r1) (preview_item p1) = Inl err"
    using preview_reply_fails [of p1 r1] by blast
  from a have same: "pokemonList (ui mid) = pokemonList (ui s1)"
    using run_quiet by blast
  from a bad have "step mid (Settled (next_id s1) r1 ds1) = Some (list_failed (next_id s1) err mid)"
    using failing_step by blast
  then show "\<exists>s'. step mid (Settled (next_id s1) r1 ds1) = Some s'
            \<and> error (ui s') = Some ''Failed to load Pokemon'' \<and> \<not> loading (ui s')
            \<and> pokemonList (ui s') = pokemonList (ui s1)
            \<and> tasks s' (next_id s1) = None \<and> fetches s' = fetches mid"
    using same by (simp add: list_failed_def)
qed


lemmas run_defs = init_def fetchPokemonList_def list_failed_def entry_def pokemon_record_def
  preview_of_def preview_item_def and_then_def get_prop_def lookup_def dec.simps

theorem batch_all_or_nothing_witness:
  "\<exists>s s'. run init [Mount,
                   Settled 0 (Response 200 (Some (catalog 12))) (map Index [3, 3, 1, 0, 3, 2, 4, 1, 5, 6, 7, 8, 9, 11]),
                   Settled 0 (Response 200 (Some (pokemon_record 3))) [],
                   Settled 0 (Response 200 (Some (pokemon_record 1))) [],
                   Settled 0 (Response 200 (Some (pokemon_record 0))) [],
                   Settled 0 (Response 200 (Some (pokemon_record 2))) [],
                   Settled 0 (Response 200 (Some (pokemon_record 4))) [],
                   Settled 0 (Response 200 (Some (pokemon_record 5))) [],
                   Settled 0 (Response 200 (Some (pokemon_record 6))) [],
                   Settled 0 (Response 200 (Some (pokemon_record 7))) [],
                   Settled 0 (Response 200 (Some (pokemon_record 8))) [],
                   Settled 0 (Response 200 (Some (pokemon_record 9))) []] = Some s
      \<and> pokemonList (ui s) = JArr (map preview_of [3, 1, 0, 2, 4, 5, 6, 7, 8, 9])
      \<and> run s [Refresh,
                Settled 1 (Response 200 (Some (catalog 12))) (map Index [3, 3, 1, 0, 3, 2, 4, 1, 5, 6, 7, 8, 9, 11]),
                Settled 1 (Response 200 (Some (pokemon_record 3))) [],
                Settled 1 (Response 200 (Some (pokemon_record 1))) [],
                Settled 1 (Response 200 (Some (pokemon_record 0))) [],
                Settled 1 (Response 200 (Some (JObj [(''name'', JStr ''pokemon-2'')]))) []] = Some s'
      \<and> error (ui s') = Some ''Failed to load Pokemon'' \<and> \<not> loading (ui s')
      \<and> pokemonList (ui s') = JArr (map preview_of [3, 1, 0, 2, 4, 5, 6, 7, 8, 9])
      \<and> tasks s' 1 = None"
proof -
  obtain s where r: "run init [Mount,
                   Settled 0 (Response 200 (Some (catalog 12))) (map Index [3, 3, 1, 0, 3, 2, 4, 1, 5, 6, 7, 8, 9, 11]),
                   Settled 0 (Response 200 (Some (pokemon_record 3))) [],
                   Settled 0 (Response 200 (Some (pokemon_record 1))) [],
                   Settled 0 (Response 200 (Some (pokemon_record 0))) [],
                   Settled 0 (Response 200 (Some (pokemon_record 2))) [],
                   Settled 0 (Response 200 (Some (pokemon_record 4))) [],
                   Settled 0 (Response 200 (Some (pokemon_record 5))) [],
                   Settled 0 (Response 200 (Some (pokemon_record 6))) [],
                   Settled 0 (Response 200 (Some (pokemon_record 7))) [],
                   Settled 0 (Response 200 (Some (pokemon_record 8))) [],
                   Settled 0 (Response 200 (Some (pokemon_record 9))) []] = Some s"
      and l: "pokemonList (ui s) = JArr (map preview_of [3, 1, 0, 2, 4, 5, 6, 7, 8, 9])"
      and n: "next_id s = 1"
    using sample_catalog_12 by (simp add: run_defs)
  have q: "\<not> nullish (entry 2)"
    by (simp add: entry_def)
  have bad: "Response 200 (Some (JObj [(''name'', JStr ''pokemon-2'')])) = Rejected
             \<or> (\<exists>st. Response 200 (Some (JObj [(''name'', JStr ''pokemon-2'')])) = Response st None)
             \<or> (\<exists>st details err. Response 200 (Some (JObj [(''name'', JStr ''pokemon-2'')])) = Response st (Some details)
                   \<and> and_then (get_prop details ''sprites'') (\<lambda>sp. get_prop sp ''front_default'') = Inl err)"
    by (simp add: and_then_def get_prop_def lookup_def)
  note alone = batch_all_or_nothing [THEN conjunct2, THEN conjunct1, rule_format]
  from alone [OF conjI [OF disjI2 [OF refl] conjI [OF sample_catalog_12 conjI [OF preview_replies_ok conjI [OF q bad]]]],
              where ?s0.0 = s and status = 200]
  obtain s' where "run s (Refresh # Settled (next_id s) (Response 200 (Some (catalog 12))) (map Index [3, 3, 1, 0, 3, 2, 4, 1, 5, 6, 7, 8, 9, 11])
                          # map (\<lambda>r. Settled (next_id s) r [])
                              ([Response 200 (Some (pokemon_record 3)), Response 200 (Some (pokemon_record 1)),
                                Response 200 (Some (pokemon_record 0))]
                               @ [Response 200 (Some (JObj [(''name'', JStr ''pokemon-2'')]))])) = Some s'"
      and "error (ui s') = Some ''Failed to load Pokemon''" and "\<not> loading (ui s')"
      and "pokemonList (ui s') = pokemonList (ui s)"
      and "tasks s' (next_id s) = None"
    by blast
  then have "\<exists>s'. run s (Refresh # Settled (next_id s) (Response 200 (Some (catalog 12))) (map Index [3, 3, 1, 0, 3, 2, 4, 1, 5, 6, 7, 8, 9, 11])
                          # map (\<lambda>r. Settled (next_id s) r [])
                              ([Response 200 (Some (pokemon_record 3)), Response 200 (Some (pokemon_record 1)),
                                Response 200 (Some (pokemon_record 0))]
                               @ [Response 200 (Some (JObj [(''name'', JStr ''pokemon-2'')]))])) = Some s'
            \<and> error (ui s') = Some ''Failed to load Pokemon'' \<and> \<not> loading (ui s')
            \<and> pokemonList (ui s') = pokemonList (ui s)
            \<and> tasks s' (next_id s) = None"
    by blast
  then show ?thesis
    using r l n by (auto simp del: run.simps)
qed

text \<open>
  C6, as the claim states it, fails twice. A batch in which two preview fetches answer
  500 and 404 with well-formed records does not fail: it stores its ten items and sets no
  error. And a batch that fails does not always leave the list it found: here the second
  call finds the empty list, the first call stores its ten items while the second is
  waiting for the index, and the second then fails with the ten items in place.
\<close>

theorem batch_failure_counterexample:
  "map_option (\<lambda>s. (pokemonList (ui s), error (ui s), loading (ui s)))
     (run init [Mount,
                Settled 0 (Response 200 (Some (catalog 12))) (map Index [3, 3, 1, 0, 3, 2, 4, 1, 5, 6, 7, 8, 9, 11]),
                Settled 0 (Response 200 (Some (pokemon_record 3))) [],
                Settled 0 (Response 500 (Some (pokemon_record 1))) [],
                Settled 0 (Response 200 (Some (pokemon_record 0))) [],
                Settled 0 (Response 404 (Some (pokemon_record 2))) [],
                Settled 0 (Response 200 (Some (pokemon_record 4))) [],
                Settled 0 (Response 200 (Some (pokemon_record 5))) [],
                Settled 0 (Response 200 (Some (pokemon_record 6))) [],
                Settled 0 (Response 200 (Some (pokemon_record 7))) [],
                Settled 0 (Response 200 (Some (pokemon_record 8))) [],
                Settled 0 (Response 200 (Some (pokemon_record 9))) []])
   = Some (JArr (map preview_of [3, 1, 0, 2, 4, 5, 6, 7, 8, 9]), None, False)
   \<and> map_option (\<lambda>s. pokemonList (ui s)) (run init [Mount]) = Some (JArr [])
   \<and> map_option (\<lambda>s. (pokemonList (ui s), error (ui s), loading (ui s)))
     (run init [Mount,
                Refresh,
                Settled 0 (Response 200 (Some (catalog 12))) (map Index [3, 3, 1, 0, 3, 2, 4, 1, 5, 6, 7, 8, 9, 11]),
                Settled 0 (Response 200 (Some (pokemon_record 3))) [],
                Settled 0 (Response 200 (Some (pokemon_record 1))) [],
                Settled 0 (Response 200 (Some (pokemon_record 0))) [],
                Settled 0 (Response 200 (Some (pokemon_record 2))) [],
                Settled 0 (Response 200 (Some (pokemon_record 4))) [],
                Settled 0 (Response 200 (Some (pokemon_record 5))) [],
                Settled 0 (Response 200 (Some (pokemon_record 6))) [],
                Settled 0 (Response 200 (Some (pokemon_record 7))) [],
                Settled 0 (Response 200 (Some (pokemon_record 8))) [],
                Settled 0 (Response 200 (Some (pokemon_record 9))) [],
                Settled 1 (Response 200 (Some (catalog 12))) (map Index [3, 3, 1, 0, 3, 2, 4, 1, 5, 6, 7, 8, 9, 11]),
                Settled 1 Rejected []])
   = Some (JArr (map preview_of [3, 1, 0, 2, 4, 5, 6, 7, 8, 9]), Some ''Failed to load Pokemon'', False)"
  using sample_catalog_12 by (simp add: run_defs)

text \<open>
  C9, as the claim states it, fails in its last clause. After mount and a refresh, the
  batch of the mount receives all its replies: its list replaces the empty one and
  \<open>loading\<close> is cleared while the batch of the refresh, the new one, is still waiting for
  the index and has stored nothing.
\<close>

theorem old_batch_replaces_list_during_refresh:
  "map_option (\<lambda>s. (pokemonList (ui s), loading (ui s), tasks s 1))
     (run init [Mount,
                Refresh,
                Settled 0 (Response 200 (Some (catalog 12))) (map Index [3, 3, 1, 0, 3, 2, 4, 1, 5, 6, 7, 8, 9, 11]),
                Settled 0 (Response 200 (Some (pokemon_record 3))) [],
                Settled 0 (Response 200 (Some (pokemon_record 1))) [],
                Settled 0 (Response 200 (Some (pokemon_record 0))) [],
                Settled 0 (Response 200 (Some (pokemon_record 2))) [],
                Settled 0 (Response 200 (Some (pokemon_record 4))) [],
                Settled 0 (Response 200 (Some (pokemon_record 5))) [],
                Settled 0 (Response 200 (Some (pokemon_record 6))) [],
                Settled 0 (Response 200 (Some (pokemon_record 7))) [],
                Settled 0 (Response 200 (Some (pokemon_record 8))) [],
                Settled 0 (Response 200 (Some (pokemon_record 9))) []])
   = Some (JArr (map preview_of [3, 1, 0, 2, 4, 5, 6, 7, 8, 9]), False, Some AwaitIndex)
   \<and> map_option (\<lambda>s. (pokemonList (ui s), loading (ui s), tasks s 1)) (run init [Mount, Refresh])
   = Some (JArr [], True, Some AwaitIndex)"
  using sample_catalog_12 by (simp add: run_defs)






text \<open>
  C1, amended. No result is discarded.
  \<^item> In whatever state a detail load receives its species record and the description can
    be read from it, the step stores the merged record: whatever has been selected
    since.
  \<^item> From any state, two entries are selected one after the other and both loads run
    without error (both primary records have \<open>species.url\<close>, both descriptions can be
    read). In every order in which the four fetches can settle, the detail cell ends
    with the record of the load whose species fetch settles last: the first selection's
    if that one settles last.
  \<^item> In whatever state a batch receives the last of its previews with success, the step
    stores that batch's list; of two batches at their last preview the one that
    settles last leaves its list, in either order.
\<close>

theorem last_settled_wins:
  "(tasks s t = Some (AwaitSpecies data) \<and> and_then (body_of r) description_of = Inr d \<longrightarrow>
      (\<exists>s'. step s (Settled t r ds) = Some s' \<and> selectedPokemon (ui s') = with_description data d))
   \<and> (and_then (get_prop dataA ''species'') (\<lambda>sp. get_prop sp ''url'') = Inr spA
      \<and> and_then (get_prop dataB ''species'') (\<lambda>sp. get_prop sp ''url'') = Inr spB
      \<and> description_of bodyA = Inr dA \<and> description_of bodyB = Inr dB \<longrightarrow>
      (\<forall>evs \<in> shuffles [Settled (next_id s) (Response a1 (Some dataA)) [],
                          Settled (next_id s) (Response a2 (Some bodyA)) []]
                         [Settled (Suc (next_id s)) (Response b1 (Some dataB)) [],
                          Settled (Suc (next_id s)) (Response b2 (Some bodyB)) []].
         map_option (\<lambda>s. selectedPokemon (ui s)) (run s (Select urlA # Select urlB # evs))
           = Some (if last evs = Settled (next_id s) (Response a2 (Some bodyA)) []
                   then with_description dataA dA else with_description dataB dB)))
   \<and> (tasks s t = Some (AwaitPreview acc p []) \<and> and_then (body_of r) (preview_item p) = Inr item \<longrightarrow>
      (\<exists>s'. step s (Settled t r ds) = Some s' \<and> pokemonList (ui s') = JArr (acc @ [item])))
   \<and> (tasks s a = Some (AwaitPreview accA pA []) \<and> tasks s b = Some (AwaitPreview accB pB []) \<and> a \<noteq> b
      \<and> preview_item pA recA = Inr itemA \<and> preview_item pB recB = Inr itemB \<longrightarrow>
      map_option (\<lambda>s. pokemonList (ui s))
        (run s [Settled a (Response stA (Some recA)) [], Settled b (Response stB (Some recB)) []])
        = Some (JArr (accB @ [itemB]))
      \<and> map_option (\<lambda>s. pokemonList (ui s))
        (run s [Settled b (Response stB (Some recB)) [], Settled a (Response stA (Some recA)) []])
        = Some (JArr (accA @ [itemA])))"
proof (intro conjI)
  show "tasks s t = Some (AwaitSpecies data) \<and> and_then (body_of r) description_of = Inr d \<longrightarrow>
      (\<exists>s'. step s (Settled t r ds) = Some s' \<and> selectedPokemon (ui s') = with_description data d)"
    by simp
next
  show "and_then (get_prop dataA ''species'') (\<lambda>sp. get_prop sp ''url'') = Inr spA
      \<and> and_then (get_prop dataB ''species'') (\<lambda>sp. get_prop sp ''url'') = Inr spB
      \<and> description_of bodyA = Inr dA \<and> description_of bodyB = Inr dB \<longrightarrow>
      (\<forall>evs \<in> shuffles [Settled (next_id s) (Response a1 (Some dataA)) [],
                          Settled (next_id s) (Response a2 (Some bodyA)) []]
                         [Settled (Suc (next_id s)) (Response b1 (Some dataB)) [],
                          Settled (Suc (next_id s)) (Response b2 (Some bodyB)) []].
         map_option (\<lambda>s. selectedPokemon (ui s)) (run s (Select urlA # Select urlB # evs))
           = Some (if last evs = Settled (next_id s) (Response a2 (Some bodyA)) []
                   then with_description dataA dA else with_description dataB dB))"
    by (simp add: fetchPokemonDetails_def and_then_def)
next
  show "tasks s t = Some (AwaitPreview acc p []) \<and> and_then (body_of r) (preview_item p) = Inr item \<longrightarrow>
      (\<exists>s'. step s (Settled t r ds) = Some s' \<and> pokemonList (ui s') = JArr (acc @ [item]))"
    by simp
next
  show "tasks s a = Some (AwaitPreview accA pA []) \<and> tasks s b = Some (AwaitPreview accB pB []) \<and> a \<noteq> b
      \<and> preview_item pA recA = Inr itemA \<and> preview_item pB recB = Inr itemB \<longrightarrow>
      map_option (\<lambda>s. pokemonList (ui s))
        (run s [Settled a (Response stA (Some recA)) [], Settled b (Response stB (Some recB)) []])
        = Some (JArr (accB @ [itemB]))
      \<and> map_option (\<lambda>s. pokemonList (ui s))
        (run s [Settled b (Response stB (Some recB)) [], Settled a (Response stA (Some recA)) []])
        = Some (JArr (accA @ [itemA]))"
    by (simp add: and_then_def)
qed


theorem last_settled_wins_witness:
  "map_option (\<lambda>s. selectedPokemon (ui s))
     (run init [Select (JStr ''https://pokeapi.co/api/v2/pokemon/1/''),
                Select (JStr ''https://pokeapi.co/api/v2/pokemon/2/''),
                Settled 0 (Response 200 (Some (pokemon_record 1))) [],
                Settled 1 (Response 200 (Some (pokemon_record 2))) [],
                Settled 1 (Response 200 (Some (species_record [''B'']))) [],
                Settled 0 (Response 200 (Some (species_record [''A'']))) []])
     = Some (with_description (pokemon_record 1) (JStr ''A''))
   \<and> map_option (\<lambda>s. pokemonList (ui s))
     (run (init\<lparr>tasks := (tasks init)(0 \<mapsto> AwaitPreview [] (entry 1) [], 1 \<mapsto> AwaitPreview [] (entry 2) [])\<rparr>)
        [Settled 1 (Response 200 (Some (pokemon_record 2))) [],
         Settled 0 (Response 200 (Some (pokemon_record 1))) []])
     = Some (JArr [preview_of 1])"
proof -
  have nid: "next_id init = 0"
    by (simp add: init_def)
  have spA: "and_then (get_prop (pokemon_record 1) ''species'') (\<lambda>sp. get_prop sp ''url'') = Inr (species_url 1)"
    and spB: "and_then (get_prop (pokemon_record 2) ''species'') (\<lambda>sp. get_prop sp ''url'') = Inr (species_url 2)"
    by (simp_all add: pokemon_record_def and_then_def get_prop_def lookup_def)
  have dA: "description_of (species_record [''A'']) = Inr (JStr ''A'')"
    and dB: "description_of (species_record [''B'']) = Inr (JStr ''B'')"
    by (simp_all add: species_record_def description_of_def js_or_def opt_get_def and_then_def
          get_prop_def lookup_def)
  note two = last_settled_wins [where s = init and ?a1.0 = 200 and ?a2.0 = 200 and ?b1.0 = 200 and ?b2.0 = 200
      and urlA = "JStr ''https://pokeapi.co/api/v2/pokemon/1/''"
      and urlB = "JStr ''https://pokeapi.co/api/v2/pokemon/2/''",
      THEN conjunct2, THEN conjunct1, rule_format,
      OF conjI [OF spA conjI [OF spB conjI [OF dA dB]]]]
  have mem: "[Settled (next_id init) (Response 200 (Some (pokemon_record 1))) [],
              Settled (Suc (next_id init)) (Response 200 (Some (pokemon_record 2))) [],
              Settled (Suc (next_id init)) (Response 200 (Some (species_record [''B'']))) [],
              Settled (next_id init) (Response 200 (Some (species_record [''A'']))) []]
             \<in> shuffles [Settled (next_id init) (Response 200 (Some (pokemon_record 1))) [],
                         Settled (next_id init) (Response 200 (Some (species_record [''A'']))) []]
                        [Settled (Suc (next_id init)) (Response 200 (Some (pokemon_record 2))) [],
                         Settled (Suc (next_id init)) (Response 200 (Some (species_record [''B'']))) []]"
    by simp
  have detail: "map_option (\<lambda>s. selectedPokemon (ui s))
     (run init [Select (JStr ''https://pokeapi.co/api/v2/pokemon/1/''),
                Select (JStr ''https://pokeapi.co/api/v2/pokemon/2/''),
                Settled 0 (Response 200 (Some (pokemon_record 1))) [],
                Settled 1 (Response 200 (Some (pokemon_record 2))) [],
                Settled 1 (Response 200 (Some (species_record [''B'']))) [],
                Settled 0 (Response 200 (Some (species_record [''A'']))) []])
     = Some (with_description (pokemon_record 1) (JStr ''A''))"
    using two [OF mem] unfolding nid by simp
  have iA: "preview_item (entry 1) (pokemon_record 1) = Inr (preview_of 1)"
    and iB: "preview_item (entry 2) (pokemon_record 2) = Inr (preview_of 2)"
    by (simp_all add: entry_def pokemon_record_def preview_of_def preview_item_def and_then_def
          get_prop_def lookup_def dec.simps)
  define S where "S = init\<lparr>tasks := (tasks init)(0 \<mapsto> AwaitPreview [] (entry 1) [], 1 \<mapsto> AwaitPreview [] (entry 2) [])\<rparr>"
  have pend: "tasks S 0 = Some (AwaitPreview [] (entry 1) [])" "tasks S 1 = Some (AwaitPreview [] (entry 2) [])"
    and ne: "(0::nat) \<noteq> 1"
    by (simp_all add: S_def)
  note both = last_settled_wins [where stA = 200 and stB = 200,
      THEN conjunct2, THEN conjunct2, THEN conjunct2, rule_format,
      OF conjI [OF pend(1) conjI [OF pend(2) conjI [OF ne conjI [OF iA iB]]]], THEN conjunct2]
  have batch: "map_option (\<lambda>s. pokemonList (ui s))
     (run S [Settled 1 (Response 200 (Some (pokemon_record 2))) [],
             Settled 0 (Response 200 (Some (pokemon_record 1))) []])
     = Some (JArr [preview_of 1])"
    using both by simp
  show ?thesis
    using detail batch unfolding S_def by blast
qed

end
